theory Spec2Isabelle
  imports Main "HOL-Library.Char_ord" "HOL-Library.List_Lexorder" "HOL-Library.Multiset"
begin

section \<open>Data model\<close>

text \<open>
  The rows of \<^verbatim>\<open>core.models\<close> as the views and the tests of
  \<^verbatim>\<open>app/recipe\<close> use them. A user is its primary key. A price is a
  \<^verbatim>\<open>Decimal\<close> with two places, held in hundredths. Tag and Ingredient have the same
  columns and are served by the same view code, so both are rows of type \<open>attribute\<close>.
\<close>

type_synonym user_id = nat

record attribute =
  attr_id :: nat
  attr_user :: user_id
  attr_name :: string

record recipe =
  recipe_id :: nat
  recipe_user :: user_id
  recipe_title :: string
  recipe_time_minutes :: int
  recipe_price :: int
  recipe_description :: string
  recipe_link :: string
  recipe_image :: "string option"

text \<open>
  A table of Tag or Ingredient rows in insertion order, the sequence that numbers new rows,
  and the many-to-many table that links a recipe id to an attribute id.
\<close>

record attr_table =
  attr_rows :: "attribute list"
  attr_seq :: nat
  attr_links :: "(nat \<times> nat) list"

record database =
  recipe_rows :: "recipe list"
  recipe_seq :: nat
  tag_table :: attr_table
  ingredient_table :: attr_table

datatype attr_kind = Tag | Ingredient

fun table_of :: "attr_kind \<Rightarrow> database \<Rightarrow> attr_table" where
  "table_of Tag db = tag_table db"
| "table_of Ingredient db = ingredient_table db"

fun put_table :: "attr_kind \<Rightarrow> attr_table \<Rightarrow> database \<Rightarrow> database" where
  "put_table Tag t db = db\<lparr>tag_table := t\<rparr>"
| "put_table Ingredient t db = db\<lparr>ingredient_table := t\<rparr>"

section \<open>Requests and responses\<close>

text \<open>
  \<^verbatim>\<open>request.data\<close> is a dictionary; it is a record of the keys the API knows, each
  present or absent. An uploaded file either decodes as an image, and then carries the
  reference under which the storage keeps it, or does not decode.
\<close>

datatype upload = Decodable string | Undecodable

record payload =
  p_title :: "string option"
  p_time_minutes :: "int option"
  p_price :: "int option"
  p_description :: "string option"
  p_link :: "string option"
  p_tags :: "string list option"
  p_ingredients :: "string list option"
  p_user :: "user_id option"
  p_image :: "upload option"
  p_name :: "string option"

datatype status =
    HTTP_200_OK
  | HTTP_201_CREATED
  | HTTP_204_NO_CONTENT
  | HTTP_400_BAD_REQUEST
  | HTTP_401_UNAUTHORIZED
  | HTTP_404_NOT_FOUND
  | HTTP_405_METHOD_NOT_ALLOWED

text \<open>
  A response body names the rows the serializer prints; how a serializer lays a row out is
  not modelled.
\<close>

datatype body =
    Recipes "recipe list"
  | OneRecipe recipe
  | Attributes "attribute list"
  | OneAttribute attribute
  | NoBody
  | ErrorBody

type_synonym response = "status \<times> body"

datatype http_method = GET | POST | PUT | PATCH | DELETE

datatype route = ListRoute | DetailRoute nat | UploadImageRoute nat

record request =
  req_user :: "user_id option"
  req_route :: route
  req_method :: http_method
  req_data :: payload

section \<open>The framework: mixins, router, querysets\<close>

text \<open>
  What the views import from the REST framework and the ORM. A view set offers the actions
  of the mixins it inherits. The router binds the list route and the detail route to the
  standard actions and an extra route to the action declared with \<^verbatim>\<open>@action\<close>; a
  method whose action the view set lacks is not bound, and a route with no bound method
  does not exist.
\<close>

datatype action =
    A_list
  | A_create
  | A_retrieve
  | A_update
  | A_partial_update
  | A_destroy
  | A_upload_image

datatype mixin =
    CreateModelMixin
  | RetrieveModelMixin
  | UpdateModelMixin
  | DestroyModelMixin
  | ListModelMixin

fun mixin_actions :: "mixin \<Rightarrow> action list" where
  "mixin_actions CreateModelMixin = [A_create]"
| "mixin_actions RetrieveModelMixin = [A_retrieve]"
| "mixin_actions UpdateModelMixin = [A_update, A_partial_update]"
| "mixin_actions DestroyModelMixin = [A_destroy]"
| "mixin_actions ListModelMixin = [A_list]"

definition ModelViewSet :: "mixin list" where
  "ModelViewSet =
     [CreateModelMixin, RetrieveModelMixin, UpdateModelMixin, DestroyModelMixin,
      ListModelMixin]"

fun route_mapping :: "route \<Rightarrow> (http_method \<times> action) list" where
  "route_mapping ListRoute = [(GET, A_list), (POST, A_create)]"
| "route_mapping (DetailRoute pk) =
     [(GET, A_retrieve), (PUT, A_update), (PATCH, A_partial_update), (DELETE, A_destroy)]"
| "route_mapping (UploadImageRoute pk) = [(POST, A_upload_image)]"

definition get_method_map :: "action list \<Rightarrow> route \<Rightarrow> (http_method \<times> action) list" where
  "get_method_map actions r = filter (\<lambda>(m, a). a \<in> set actions) (route_mapping r)"

text \<open>
  \<^verbatim>\<open>order_by("-key")\<close>: descending by the key. Text is compared character by
  character by code point (the spec's case-sensitive ordinal comparison; the collation is
  the storage engine's). Rows with equal keys come in an order the engine chooses; here the
  later row first.
\<close>

definition order_by_desc :: "('a \<Rightarrow> 'k::linorder) \<Rightarrow> 'a list \<Rightarrow> 'a list" where
  "order_by_desc key xs = rev (sort_key key xs)"

text \<open>
  \<^verbatim>\<open>GenericAPIView.get_object\<close>: the row of the view's queryset with the primary key
  of the URL; \<open>None\<close> is \<^verbatim>\<open>Http404\<close>.
\<close>

definition get_object :: "('a \<Rightarrow> nat) \<Rightarrow> 'a list \<Rightarrow> nat \<Rightarrow> 'a option" where
  "get_object ident queryset pk = find (\<lambda>x. ident x = pk) queryset"

section \<open>Serializers\<close>

datatype serializer_class = RecipeSerializer | RecipeDetailSerializer | RecipeImageSerializer

record validated_data =
  v_title :: "string option"
  v_time_minutes :: "int option"
  v_price :: "int option"
  v_description :: "string option"
  v_link :: "string option"
  v_tags :: "string list option"
  v_ingredients :: "string list option"
  v_image :: "string option"

text \<open>
  Modelled from the spec: \<^verbatim>\<open>recipe/serializers.py\<close> is missing. The serializers of a
  recipe accept the recipe's fields and the two nested name lists and have no owner field,
  so a \<^verbatim>\<open>user\<close> key in the input is dropped; the image serializer accepts the image
  only. The image serializer is valid exactly on a payload whose image decodes. Which
  other fields are required and which values they admit is the missing declarations'; that
  check is the parameter \<open>V\<close>, given the \<^verbatim>\<open>partial\<close> flag and the values of
  the declared fields.
\<close>

fun to_internal_value :: "serializer_class \<Rightarrow> payload \<Rightarrow> validated_data" where
  "to_internal_value RecipeImageSerializer d =
     \<lparr>v_title = None, v_time_minutes = None, v_price = None, v_description = None,
      v_link = None, v_tags = None, v_ingredients = None,
      v_image = (case p_image d of Some (Decodable ref) \<Rightarrow> Some ref | _ \<Rightarrow> None)\<rparr>"
| "to_internal_value cls d =
     \<lparr>v_title = p_title d, v_time_minutes = p_time_minutes d, v_price = p_price d,
      v_description = p_description d, v_link = p_link d, v_tags = p_tags d,
      v_ingredients = p_ingredients d, v_image = None\<rparr>"

type_synonym recipe_validation = "bool \<Rightarrow> validated_data \<Rightarrow> bool"

fun is_valid :: "recipe_validation \<Rightarrow> serializer_class \<Rightarrow> bool \<Rightarrow> payload \<Rightarrow> bool" where
  "is_valid V RecipeImageSerializer partial d =
     (case p_image d of Some (Decodable ref) \<Rightarrow> True | _ \<Rightarrow> False)"
| "is_valid V cls partial d = V partial (to_internal_value cls d)"

subsection \<open>The nested-entity reconciler\<close>

text \<open>
  Modelled from the spec: the reconciler of \<^verbatim>\<open>recipe/serializers.py\<close> is missing
  (spec section 4.2). Find-or-create is scoped to the owner and the name: the existing row
  if there is one, else a new row with the next id of the sequence.
\<close>

definition get_or_create :: "user_id \<Rightarrow> string \<Rightarrow> attr_table \<Rightarrow> attribute \<times> attr_table" where
  "get_or_create u n t =
     (case find (\<lambda>a. attr_user a = u \<and> attr_name a = n) (attr_rows t) of
        Some a \<Rightarrow> (a, t)
      | None \<Rightarrow>
          (let a = \<lparr>attr_id = attr_seq t, attr_user = u, attr_name = n\<rparr>
           in (a, t\<lparr>attr_rows := attr_rows t @ [a], attr_seq := Suc (attr_seq t)\<rparr>)))"

fun resolve_all :: "user_id \<Rightarrow> string list \<Rightarrow> attr_table \<Rightarrow> attribute list \<times> attr_table" where
  "resolve_all u [] t = ([], t)"
| "resolve_all u (n # ns) t =
     (case get_or_create u n t of
        (a, t1) \<Rightarrow> (case resolve_all u ns t1 of (as, t2) \<Rightarrow> (a # as, t2)))"

text \<open>
  The resolved rows are collected into a set and the recipe's links are replaced by it.
\<close>

definition set_association :: "nat \<Rightarrow> attribute list \<Rightarrow> attr_table \<Rightarrow> attr_table" where
  "set_association rid resolved t =
     t\<lparr>attr_links :=
         filter (\<lambda>(r, a). r \<noteq> rid) (attr_links t)
         @ map (\<lambda>a. (rid, attr_id a)) (remdups resolved)\<rparr>"

definition reconcile :: "user_id \<Rightarrow> nat \<Rightarrow> string list option \<Rightarrow> attr_table \<Rightarrow> attr_table" where
  "reconcile u rid names t =
     (case names of
        None \<Rightarrow> t
      | Some ns \<Rightarrow> (case resolve_all u ns t of (resolved, t') \<Rightarrow> set_association rid resolved t'))"

text \<open>The ids of the rows a recipe is associated with.\<close>

definition associated :: "attr_table \<Rightarrow> nat \<Rightarrow> nat set" where
  "associated t rid = set (map snd (filter (\<lambda>(r, a). r = rid) (attr_links t)))"

subsection \<open>Creating and updating a recipe\<close>

text \<open>
  Modelled from the spec: \<^verbatim>\<open>create\<close> and \<^verbatim>\<open>update\<close> of the missing recipe
  serializer. The new row takes the next id of the sequence and the owner that
  \<^verbatim>\<open>save\<close> was called with; a column the validated input leaves out takes the
  column's default. Each nested list that is present is reconciled under the current
  user; an absent one is left alone.
\<close>

definition or_default :: "'a \<Rightarrow> 'a option \<Rightarrow> 'a" where
  "or_default d x = (case x of None \<Rightarrow> d | Some v \<Rightarrow> v)"

definition reconcile_both :: "user_id \<Rightarrow> nat \<Rightarrow> validated_data \<Rightarrow> database \<Rightarrow> database" where
  "reconcile_both u rid vd db =
     db\<lparr>tag_table := reconcile u rid (v_tags vd) (tag_table db),
        ingredient_table := reconcile u rid (v_ingredients vd) (ingredient_table db)\<rparr>"

definition serializer_create :: "user_id \<Rightarrow> validated_data \<Rightarrow> database \<Rightarrow> recipe \<times> database" where
  "serializer_create u vd db =
     (let r = \<lparr>recipe_id = recipe_seq db, recipe_user = u,
                recipe_title = or_default [] (v_title vd),
                recipe_time_minutes = or_default 0 (v_time_minutes vd),
                recipe_price = or_default 0 (v_price vd),
                recipe_description = or_default [] (v_description vd),
                recipe_link = or_default [] (v_link vd),
                recipe_image = v_image vd\<rparr>
      in (r, reconcile_both u (recipe_id r) vd
               (db\<lparr>recipe_rows := recipe_rows db @ [r], recipe_seq := Suc (recipe_seq db)\<rparr>)))"

definition set_fields :: "validated_data \<Rightarrow> recipe \<Rightarrow> recipe" where
  "set_fields vd r =
     r\<lparr>recipe_title := or_default (recipe_title r) (v_title vd),
       recipe_time_minutes := or_default (recipe_time_minutes r) (v_time_minutes vd),
       recipe_price := or_default (recipe_price r) (v_price vd),
       recipe_description := or_default (recipe_description r) (v_description vd),
       recipe_link := or_default (recipe_link r) (v_link vd),
       recipe_image := (case v_image vd of None \<Rightarrow> recipe_image r | Some ref \<Rightarrow> Some ref)\<rparr>"

definition serializer_update ::
  "user_id \<Rightarrow> recipe \<Rightarrow> validated_data \<Rightarrow> database \<Rightarrow> recipe \<times> database" where
  "serializer_update u instance vd db =
     (let r = set_fields vd instance
      in (r, reconcile_both u (recipe_id instance) vd
               (db\<lparr>recipe_rows :=
                     map (\<lambda>x. if recipe_id x = recipe_id instance then r else x)
                       (recipe_rows db)\<rparr>)))"

section \<open>The views of \<^verbatim>\<open>recipe/views.py\<close>\<close>

subsection \<open>RecipeViewSet\<close>

definition RecipeViewSet_actions :: "action list" where
  "RecipeViewSet_actions = concat (map mixin_actions ModelViewSet) @ [A_upload_image]"

definition RecipeViewSet_get_queryset :: "user_id \<Rightarrow> database \<Rightarrow> recipe list" where
  "RecipeViewSet_get_queryset u db =
     order_by_desc recipe_id (filter (\<lambda>r. recipe_user r = u) (recipe_rows db))"

definition get_serializer_class :: "action \<Rightarrow> serializer_class" where
  "get_serializer_class a =
     (if a = A_list then RecipeSerializer
      else if a = A_upload_image then RecipeImageSerializer
      else RecipeDetailSerializer)"

text \<open>\<^verbatim>\<open>serializer.save(user=self.request.user)\<close> on a serializer with no instance.\<close>

definition perform_create :: "user_id \<Rightarrow> validated_data \<Rightarrow> database \<Rightarrow> recipe \<times> database" where
  "perform_create u vd db = serializer_create u vd db"

definition upload_image ::
  "recipe_validation \<Rightarrow> user_id \<Rightarrow> nat \<Rightarrow> payload \<Rightarrow> database \<Rightarrow> database \<times> response" where
  "upload_image V u pk d db =
     (case get_object recipe_id (RecipeViewSet_get_queryset u db) pk of
        None \<Rightarrow> (db, HTTP_404_NOT_FOUND, ErrorBody)
      | Some recipe \<Rightarrow>
          (let cls = get_serializer_class A_upload_image in
           if is_valid V cls False d
           then (case serializer_update u recipe (to_internal_value cls d) db of
                   (r, db') \<Rightarrow> (db', HTTP_200_OK, OneRecipe r))
           else (db, HTTP_400_BAD_REQUEST, ErrorBody)))"

text \<open>The actions \<^verbatim>\<open>ModelViewSet\<close> provides, over the view's queryset and serializer.\<close>

definition recipe_list :: "user_id \<Rightarrow> database \<Rightarrow> database \<times> response" where
  "recipe_list u db = (db, HTTP_200_OK, Recipes (RecipeViewSet_get_queryset u db))"

definition recipe_create ::
  "recipe_validation \<Rightarrow> user_id \<Rightarrow> payload \<Rightarrow> database \<Rightarrow> database \<times> response" where
  "recipe_create V u d db =
     (let cls = get_serializer_class A_create in
      if is_valid V cls False d
      then (case perform_create u (to_internal_value cls d) db of
              (r, db') \<Rightarrow> (db', HTTP_201_CREATED, OneRecipe r))
      else (db, HTTP_400_BAD_REQUEST, ErrorBody))"

definition recipe_retrieve :: "user_id \<Rightarrow> nat \<Rightarrow> database \<Rightarrow> database \<times> response" where
  "recipe_retrieve u pk db =
     (case get_object recipe_id (RecipeViewSet_get_queryset u db) pk of
        None \<Rightarrow> (db, HTTP_404_NOT_FOUND, ErrorBody)
      | Some recipe \<Rightarrow> (db, HTTP_200_OK, OneRecipe recipe))"

definition recipe_update ::
  "recipe_validation \<Rightarrow> bool \<Rightarrow> user_id \<Rightarrow> nat \<Rightarrow> payload \<Rightarrow> database
     \<Rightarrow> database \<times> response" where
  "recipe_update V partial u pk d db =
     (case get_object recipe_id (RecipeViewSet_get_queryset u db) pk of
        None \<Rightarrow> (db, HTTP_404_NOT_FOUND, ErrorBody)
      | Some recipe \<Rightarrow>
          (let cls = get_serializer_class (if partial then A_partial_update else A_update) in
           if is_valid V cls partial d
           then (case serializer_update u recipe (to_internal_value cls d) db of
                   (r, db') \<Rightarrow> (db', HTTP_200_OK, OneRecipe r))
           else (db, HTTP_400_BAD_REQUEST, ErrorBody)))"

text \<open>Deleting a row deletes its link rows with it; the rows it was linked to stay.\<close>

definition unlink_recipe :: "nat \<Rightarrow> attr_table \<Rightarrow> attr_table" where
  "unlink_recipe rid t = t\<lparr>attr_links := filter (\<lambda>(r, a). r \<noteq> rid) (attr_links t)\<rparr>"

definition recipe_destroy :: "user_id \<Rightarrow> nat \<Rightarrow> database \<Rightarrow> database \<times> response" where
  "recipe_destroy u pk db =
     (case get_object recipe_id (RecipeViewSet_get_queryset u db) pk of
        None \<Rightarrow> (db, HTTP_404_NOT_FOUND, ErrorBody)
      | Some recipe \<Rightarrow>
          (db\<lparr>recipe_rows := filter (\<lambda>x. recipe_id x \<noteq> recipe_id recipe) (recipe_rows db),
              tag_table := unlink_recipe (recipe_id recipe) (tag_table db),
              ingredient_table := unlink_recipe (recipe_id recipe) (ingredient_table db)\<rparr>,
           HTTP_204_NO_CONTENT, NoBody))"

subsection \<open>BaseRecipeAttributeViewSet, TagViewSet, IngredientViewSet\<close>

definition BaseRecipeAttributeViewSet_mixins :: "mixin list" where
  "BaseRecipeAttributeViewSet_mixins = [ListModelMixin, UpdateModelMixin, DestroyModelMixin]"

definition BaseRecipeAttributeViewSet_actions :: "action list" where
  "BaseRecipeAttributeViewSet_actions = concat (map mixin_actions BaseRecipeAttributeViewSet_mixins)"

definition BaseRecipeAttributeViewSet_get_queryset :: "user_id \<Rightarrow> attr_table \<Rightarrow> attribute list" where
  "BaseRecipeAttributeViewSet_get_queryset u t =
     order_by_desc attr_name (filter (\<lambda>a. attr_user a = u) (attr_rows t))"

definition attr_list :: "user_id \<Rightarrow> attr_table \<Rightarrow> attr_table \<times> response" where
  "attr_list u t = (t, HTTP_200_OK, Attributes (BaseRecipeAttributeViewSet_get_queryset u t))"

text \<open>
  Modelled from the spec: the missing model declares a name unique per owner, so a rename
  to a name another row of the owner holds is refused as a validation error. What else the
  missing serializer asks of a name is the parameter \<open>V\<close>, given the
  \<^verbatim>\<open>partial\<close> flag and the name of the input.
\<close>

type_synonym attr_validation = "bool \<Rightarrow> string option \<Rightarrow> bool"

definition name_taken :: "attribute \<Rightarrow> string \<Rightarrow> attr_table \<Rightarrow> bool" where
  "name_taken a n t =
     list_ex (\<lambda>b. attr_user b = attr_user a \<and> attr_name b = n \<and> attr_id b \<noteq> attr_id a)
       (attr_rows t)"

definition attr_update ::
  "attr_validation \<Rightarrow> bool \<Rightarrow> user_id \<Rightarrow> nat \<Rightarrow> payload \<Rightarrow> attr_table
     \<Rightarrow> attr_table \<times> response" where
  "attr_update V partial u pk d t =
     (case get_object attr_id (BaseRecipeAttributeViewSet_get_queryset u t) pk of
        None \<Rightarrow> (t, HTTP_404_NOT_FOUND, ErrorBody)
      | Some a \<Rightarrow>
          if \<not> V partial (p_name d) then (t, HTTP_400_BAD_REQUEST, ErrorBody)
          else (case p_name d of
                  None \<Rightarrow> (t, HTTP_200_OK, OneAttribute a)
                | Some n \<Rightarrow>
                    if name_taken a n t then (t, HTTP_400_BAD_REQUEST, ErrorBody)
                    else (t\<lparr>attr_rows :=
                               map (\<lambda>x. if attr_id x = attr_id a then a\<lparr>attr_name := n\<rparr> else x)
                                 (attr_rows t)\<rparr>,
                          HTTP_200_OK, OneAttribute (a\<lparr>attr_name := n\<rparr>))))"

definition attr_destroy :: "user_id \<Rightarrow> nat \<Rightarrow> attr_table \<Rightarrow> attr_table \<times> response" where
  "attr_destroy u pk t =
     (case get_object attr_id (BaseRecipeAttributeViewSet_get_queryset u t) pk of
        None \<Rightarrow> (t, HTTP_404_NOT_FOUND, ErrorBody)
      | Some a \<Rightarrow>
          (t\<lparr>attr_rows := filter (\<lambda>x. attr_id x \<noteq> attr_id a) (attr_rows t),
             attr_links := filter (\<lambda>(r, i). i \<noteq> attr_id a) (attr_links t)\<rparr>,
           HTTP_204_NO_CONTENT, NoBody))"

subsection \<open>Dispatch\<close>

text \<open>
  A request is resolved to a route of the view set (404 when the route does not exist),
  authenticated (\<^verbatim>\<open>TokenAuthentication\<close>, \<^verbatim>\<open>IsAuthenticated\<close>: 401 without a
  user), and handed to the action bound to its method (405 when none is).
\<close>

definition dispatch :: "action list \<Rightarrow> request \<Rightarrow> response + user_id \<times> action" where
  "dispatch actions req =
     (let m = get_method_map actions (req_route req) in
      if m = [] then Inl (HTTP_404_NOT_FOUND, ErrorBody)
      else (case req_user req of
              None \<Rightarrow> Inl (HTTP_401_UNAUTHORIZED, ErrorBody)
            | Some u \<Rightarrow>
                (case map_of m (req_method req) of
                   None \<Rightarrow> Inl (HTTP_405_METHOD_NOT_ALLOWED, ErrorBody)
                 | Some a \<Rightarrow> Inr (u, a))))"

fun RecipeViewSet_action ::
  "recipe_validation \<Rightarrow> user_id \<Rightarrow> action \<Rightarrow> route \<Rightarrow> payload \<Rightarrow> database
     \<Rightarrow> database \<times> response" where
  "RecipeViewSet_action V u A_list r d db = recipe_list u db"
| "RecipeViewSet_action V u A_create r d db = recipe_create V u d db"
| "RecipeViewSet_action V u A_retrieve (DetailRoute pk) d db = recipe_retrieve u pk db"
| "RecipeViewSet_action V u A_update (DetailRoute pk) d db = recipe_update V False u pk d db"
| "RecipeViewSet_action V u A_partial_update (DetailRoute pk) d db =
     recipe_update V True u pk d db"
| "RecipeViewSet_action V u A_destroy (DetailRoute pk) d db = recipe_destroy u pk db"
| "RecipeViewSet_action V u A_upload_image (UploadImageRoute pk) d db = upload_image V u pk d db"
| "RecipeViewSet_action V u a r d db = (db, HTTP_405_METHOD_NOT_ALLOWED, ErrorBody)"

definition RecipeViewSet ::
  "recipe_validation \<Rightarrow> request \<Rightarrow> database \<Rightarrow> database \<times> response" where
  "RecipeViewSet V req db =
     (case dispatch RecipeViewSet_actions req of
        Inl resp \<Rightarrow> (db, resp)
      | Inr (u, a) \<Rightarrow> RecipeViewSet_action V u a (req_route req) (req_data req) db)"

fun BaseRecipeAttributeViewSet_action ::
  "attr_validation \<Rightarrow> user_id \<Rightarrow> action \<Rightarrow> route \<Rightarrow> payload \<Rightarrow> attr_table
     \<Rightarrow> attr_table \<times> response" where
  "BaseRecipeAttributeViewSet_action V u A_list r d t = attr_list u t"
| "BaseRecipeAttributeViewSet_action V u A_update (DetailRoute pk) d t =
     attr_update V False u pk d t"
| "BaseRecipeAttributeViewSet_action V u A_partial_update (DetailRoute pk) d t =
     attr_update V True u pk d t"
| "BaseRecipeAttributeViewSet_action V u A_destroy (DetailRoute pk) d t = attr_destroy u pk t"
| "BaseRecipeAttributeViewSet_action V u a r d t = (t, HTTP_405_METHOD_NOT_ALLOWED, ErrorBody)"

definition BaseRecipeAttributeViewSet ::
  "attr_validation \<Rightarrow> request \<Rightarrow> attr_table \<Rightarrow> attr_table \<times> response" where
  "BaseRecipeAttributeViewSet V req t =
     (case dispatch BaseRecipeAttributeViewSet_actions req of
        Inl resp \<Rightarrow> (t, resp)
      | Inr (u, a) \<Rightarrow> BaseRecipeAttributeViewSet_action V u a (req_route req) (req_data req) t)"

text \<open>
  \<open>TagViewSet\<close> and \<open>IngredientViewSet\<close> are the base view set over the queryset of their
  model.
\<close>

definition AttributeViewSet ::
  "attr_kind \<Rightarrow> attr_validation \<Rightarrow> request \<Rightarrow> database \<Rightarrow> database \<times> response" where
  "AttributeViewSet k V req db =
     (case BaseRecipeAttributeViewSet V req (table_of k db) of
        (t, resp) \<Rightarrow> (put_table k t db, resp))"

definition TagViewSet :: "attr_validation \<Rightarrow> request \<Rightarrow> database \<Rightarrow> database \<times> response" where
  "TagViewSet = AttributeViewSet Tag"

definition IngredientViewSet ::
  "attr_validation \<Rightarrow> request \<Rightarrow> database \<Rightarrow> database \<times> response" where
  "IngredientViewSet = AttributeViewSet Ingredient"

section \<open>Specification vocabulary\<close>

text \<open>
  The spec's comparison of names, in its words: case-sensitive and ordinal, that is by the
  code points of the characters, a proper prefix first.
\<close>

fun ordinal_le :: "string \<Rightarrow> string \<Rightarrow> bool" where
  "ordinal_le [] ys = True"
| "ordinal_le (x # xs) [] = False"
| "ordinal_le (x # xs) (y # ys) =
     ((of_char x :: nat) < of_char y \<or> (x = y \<and> ordinal_le xs ys))"

text \<open>
  What the storage engine keeps true of a table: primary keys are unique and were issued
  by the sequence. The spec adds that a name is unique per owner.
\<close>

definition recipes_ok :: "database \<Rightarrow> bool" where
  "recipes_ok db =
     (distinct (map recipe_id (recipe_rows db))
      \<and> list_all (\<lambda>r. recipe_id r < recipe_seq db) (recipe_rows db))"

definition table_ok :: "attr_table \<Rightarrow> bool" where
  "table_ok t =
     (distinct (map attr_id (attr_rows t))
      \<and> list_all (\<lambda>a. attr_id a < attr_seq t) (attr_rows t))"

definition unique_names :: "attr_table \<Rightarrow> bool" where
  "unique_names t = distinct (map (\<lambda>a. (attr_user a, attr_name a)) (attr_rows t))"

text \<open>The rows a recipe is associated with.\<close>

definition associated_rows :: "attr_table \<Rightarrow> nat \<Rightarrow> attribute list" where
  "associated_rows t rid = filter (\<lambda>a. attr_id a \<in> associated t rid) (attr_rows t)"

text \<open>The owner and name of each row a recipe is associated with.\<close>

definition associated_names :: "attr_table \<Rightarrow> nat \<Rightarrow> (user_id \<times> string) set" where
  "associated_names t rid = (\<lambda>a. (attr_user a, attr_name a)) ` set (associated_rows t rid)"

text \<open>
  Every recipe of the first database that is still a recipe of the second, by its id, has
  the owner it had.
\<close>

definition owners_kept :: "database \<Rightarrow> database \<Rightarrow> bool" where
  "owners_kept db db' =
     (\<forall>r \<in> set (recipe_rows db). \<forall>r' \<in> set (recipe_rows db').
        recipe_id r' = recipe_id r \<longrightarrow> recipe_user r' = recipe_user r)"

text \<open>A request of an authenticated user.\<close>

definition authenticated :: "user_id \<Rightarrow> route \<Rightarrow> http_method \<Rightarrow> payload \<Rightarrow> request" where
  "authenticated u r m d = \<lparr>req_user = Some u, req_route = r, req_method = m, req_data = d\<rparr>"

section \<open>Example data\<close>

definition no_input :: payload where
  "no_input =
     \<lparr>p_title = None, p_time_minutes = None, p_price = None, p_description = None,
      p_link = None, p_tags = None, p_ingredients = None, p_user = None, p_image = None,
      p_name = None\<rparr>"

definition accept_all :: recipe_validation where
  "accept_all partial vd = True"

definition accept_name :: attr_validation where
  "accept_name partial n = True"

definition recipe_curry :: recipe where
  "recipe_curry =
     \<lparr>recipe_id = 1, recipe_user = 1, recipe_title = ''Thai Prawn Curry'',
      recipe_time_minutes = 10, recipe_price = 250, recipe_description = [],
      recipe_link = ''https://example.com/new-recipe.pdf'', recipe_image = None\<rparr>"

definition recipe_soup :: recipe where
  "recipe_soup =
     \<lparr>recipe_id = 2, recipe_user = 2, recipe_title = ''Soup'',
      recipe_time_minutes = 22, recipe_price = 525, recipe_description = ''Sample'',
      recipe_link = ''http://example.com/recipe.pdf'', recipe_image = None\<rparr>"

definition recipe_salad :: recipe where
  "recipe_salad =
     \<lparr>recipe_id = 3, recipe_user = 1, recipe_title = ''Salad'',
      recipe_time_minutes = 5, recipe_price = 599, recipe_description = [],
      recipe_link = [], recipe_image = Some ''uploads/recipe/old.jpg''\<rparr>"

definition example_tags :: attr_table where
  "example_tags =
     \<lparr>attr_rows =
        [\<lparr>attr_id = 1, attr_user = 1, attr_name = ''Thai''\<rparr>,
         \<lparr>attr_id = 2, attr_user = 2, attr_name = ''Thai''\<rparr>,
         \<lparr>attr_id = 3, attr_user = 1, attr_name = ''Dinner''\<rparr>,
         \<lparr>attr_id = 4, attr_user = 1, attr_name = ''apple''\<rparr>],
      attr_seq = 5,
      attr_links = [(1, 1), (1, 3), (2, 2)]\<rparr>"

definition example_ingredients :: attr_table where
  "example_ingredients =
     \<lparr>attr_rows = [\<lparr>attr_id = 1, attr_user = 1, attr_name = ''Prawn''\<rparr>],
      attr_seq = 2,
      attr_links = [(1, 1)]\<rparr>"

definition example_db :: database where
  "example_db =
     \<lparr>recipe_rows = [recipe_curry, recipe_soup, recipe_salad], recipe_seq = 4,
      tag_table = example_tags, ingredient_table = example_ingredients\<rparr>"

section \<open>Querysets\<close>

lemma ordinal_le_iff: "ordinal_le xs ys = (xs \<le> ys)"
  by (induction xs ys rule: ordinal_le.induct) (auto simp: less_char_def less_eq_char_def)

lemma set_order_by_desc: "set (order_by_desc k xs) = set xs"
  by (simp add: order_by_desc_def)

lemma mset_order_by_desc: "mset (order_by_desc k xs) = mset xs"
  by (simp add: order_by_desc_def)

lemma sorted_order_by_desc: "sorted_wrt (\<lambda>a b. k b \<le> k a) (order_by_desc k xs)"
proof -
  have "sorted (map k (sort_key k xs))" by (rule sorted_sort_key)
  then have "sorted_wrt (\<lambda>a b. k a \<le> k b) (sort_key k xs)"
    by (simp add: sorted_wrt_map)
  then show ?thesis
    by (simp add: order_by_desc_def sorted_wrt_rev)
qed

text \<open>With distinct keys the descending order leaves no choice.\<close>

lemma order_by_desc_unique:
  assumes d: "distinct (map k xs)"
    and m: "mset ys = mset xs"
    and s: "sorted_wrt (\<lambda>a b. k b \<le> k a) ys"
  shows "ys = order_by_desc k xs"
proof -
  let ?zs = "order_by_desc k xs"
  have mk: "mset (map k ys) = mset (map k xs)" using m by simp
  have dy: "distinct (map k ys)" using d mk by (metis mset_eq_imp_distinct_iff)
  have dz: "distinct (map k ?zs)"
    using d mset_order_by_desc[of k xs] by (metis mset_eq_imp_distinct_iff mset_map)
  have sy: "sorted (map k (rev ys))"
    using s by (simp add: sorted_wrt_map sorted_wrt_rev flip: rev_map)
  have sz: "sorted (map k (rev ?zs))"
    using sorted_order_by_desc[of k xs] by (simp add: sorted_wrt_map sorted_wrt_rev flip: rev_map)
  have se: "set (map k (rev ys)) = set (map k (rev ?zs))"
    using m by (metis mset_eq_setD set_order_by_desc set_map set_rev)
  have "map k (rev ys) = map k (rev ?zs)"
  proof (rule sorted_distinct_set_unique)
    show "distinct (map k (rev ys))" using dy by (simp flip: rev_map)
    show "distinct (map k (rev ?zs))" using dz by (simp flip: rev_map)
  qed (use sy sz se in simp_all)
  moreover have "inj_on k (set (rev ys) \<union> set (rev ?zs))"
    using d m by (metis distinct_map mset_eq_setD set_order_by_desc set_rev sup.idem)
  ultimately have "rev ys = rev ?zs" by (simp add: inj_on_map_eq_map)
  then show ?thesis by simp
qed

section \<open>Dispatch of the list requests\<close>

lemma dispatch_recipe_list:
  "dispatch RecipeViewSet_actions (authenticated u ListRoute GET d) = Inr (u, A_list)"
  by (simp add: authenticated_def dispatch_def get_method_map_def RecipeViewSet_actions_def ModelViewSet_def)

lemma dispatch_attr_list:
  "dispatch BaseRecipeAttributeViewSet_actions (authenticated u ListRoute GET d) = Inr (u, A_list)"
  by (simp add: authenticated_def dispatch_def get_method_map_def BaseRecipeAttributeViewSet_actions_def BaseRecipeAttributeViewSet_mixins_def)

lemma put_table_same: "put_table k (table_of k db) db = db"
  by (cases k) simp_all

section \<open>Claims\<close>

text \<open>
  C9. A list request answers 200 with the caller's rows and no others, each as often as the
  table holds it. Recipes come by descending id, tags and ingredients by descending name
  under the code-point comparison \<open>ordinal_le\<close>. The order is fixed: unique primary keys
  leave one way to list the recipes by descending id, and names that are unique for an
  owner leave one way to list the owner's tags or ingredients by descending name.
\<close>

theorem list_is_ordered:
  "RecipeViewSet V (authenticated u ListRoute GET d) db
     = (db, HTTP_200_OK, Recipes (RecipeViewSet_get_queryset u db))
   \<and> mset (RecipeViewSet_get_queryset u db)
       = mset (filter (\<lambda>r. recipe_user r = u) (recipe_rows db))
   \<and> sorted_wrt (\<lambda>a b. recipe_id b \<le> recipe_id a) (RecipeViewSet_get_queryset u db)
   \<and> (distinct (map recipe_id (recipe_rows db)) \<longrightarrow>
        (\<forall>ys. mset ys = mset (filter (\<lambda>r. recipe_user r = u) (recipe_rows db))
              \<and> sorted_wrt (\<lambda>a b. recipe_id b \<le> recipe_id a) ys
              \<longrightarrow> ys = RecipeViewSet_get_queryset u db))
   \<and> AttributeViewSet k Va (authenticated u ListRoute GET d) db
       = (db, HTTP_200_OK, Attributes (BaseRecipeAttributeViewSet_get_queryset u (table_of k db)))
   \<and> mset (BaseRecipeAttributeViewSet_get_queryset u t)
       = mset (filter (\<lambda>a. attr_user a = u) (attr_rows t))
   \<and> sorted_wrt (\<lambda>a b. ordinal_le (attr_name b) (attr_name a))
        (BaseRecipeAttributeViewSet_get_queryset u t)
   \<and> (distinct (map attr_name (filter (\<lambda>a. attr_user a = u) (attr_rows t))) \<longrightarrow>
        (\<forall>ys. mset ys = mset (filter (\<lambda>a. attr_user a = u) (attr_rows t))
              \<and> sorted_wrt (\<lambda>a b. ordinal_le (attr_name b) (attr_name a)) ys
              \<longrightarrow> ys = BaseRecipeAttributeViewSet_get_queryset u t))"
proof (intro conjI impI allI)
  show "RecipeViewSet V (authenticated u ListRoute GET d) db
     = (db, HTTP_200_OK, Recipes (RecipeViewSet_get_queryset u db))"
    by (simp add: RecipeViewSet_def dispatch_recipe_list recipe_list_def)
  show "AttributeViewSet k Va (authenticated u ListRoute GET d) db
       = (db, HTTP_200_OK, Attributes (BaseRecipeAttributeViewSet_get_queryset u (table_of k db)))"
    by (simp add: AttributeViewSet_def BaseRecipeAttributeViewSet_def dispatch_attr_list
        attr_list_def put_table_same)
  show "mset (RecipeViewSet_get_queryset u db)
       = mset (filter (\<lambda>r. recipe_user r = u) (recipe_rows db))"
    by (simp add: RecipeViewSet_get_queryset_def mset_order_by_desc)
  show "sorted_wrt (\<lambda>a b. recipe_id b \<le> recipe_id a) (RecipeViewSet_get_queryset u db)"
    unfolding RecipeViewSet_get_queryset_def by (rule sorted_order_by_desc)
  show "mset (BaseRecipeAttributeViewSet_get_queryset u t)
       = mset (filter (\<lambda>a. attr_user a = u) (attr_rows t))"
    by (simp add: BaseRecipeAttributeViewSet_get_queryset_def mset_order_by_desc)
  show "sorted_wrt (\<lambda>a b. ordinal_le (attr_name b) (attr_name a))
        (BaseRecipeAttributeViewSet_get_queryset u t)"
    unfolding BaseRecipeAttributeViewSet_get_queryset_def ordinal_le_iff
    by (rule sorted_order_by_desc)
next
  fix ys
  assume d: "distinct (map recipe_id (recipe_rows db))"
    and h: "mset ys = mset (filter (\<lambda>r. recipe_user r = u) (recipe_rows db))
              \<and> sorted_wrt (\<lambda>a b. recipe_id b \<le> recipe_id a) ys"
  have "distinct (map recipe_id (filter (\<lambda>r. recipe_user r = u) (recipe_rows db)))"
    using d by (rule distinct_map_filter)
  then show "ys = RecipeViewSet_get_queryset u db"
    unfolding RecipeViewSet_get_queryset_def using h by (intro order_by_desc_unique) simp_all
next
  fix ys
  assume d: "distinct (map attr_name (filter (\<lambda>a. attr_user a = u) (attr_rows t)))"
    and h: "mset ys = mset (filter (\<lambda>a. attr_user a = u) (attr_rows t))
              \<and> sorted_wrt (\<lambda>a b. ordinal_le (attr_name b) (attr_name a)) ys"
  show "ys = BaseRecipeAttributeViewSet_get_queryset u t"
    unfolding BaseRecipeAttributeViewSet_get_queryset_def
    using d h by (intro order_by_desc_unique) (simp_all add: ordinal_le_iff)
qed

theorem list_is_ordered_witness:
  "RecipeViewSet accept_all (authenticated 1 ListRoute GET no_input) example_db
     = (example_db, HTTP_200_OK, Recipes [recipe_salad, recipe_curry])
   \<and> AttributeViewSet Tag accept_name (authenticated 1 ListRoute GET no_input) example_db
     = (example_db, HTTP_200_OK,
        Attributes [\<lparr>attr_id = 4, attr_user = 1, attr_name = ''apple''\<rparr>,
                    \<lparr>attr_id = 1, attr_user = 1, attr_name = ''Thai''\<rparr>,
                    \<lparr>attr_id = 3, attr_user = 1, attr_name = ''Dinner''\<rparr>])"
proof -
  note T = list_is_ordered[of accept_all 1 no_input example_db Tag accept_name example_tags]
  note R = T[THEN conjunct2, THEN conjunct2, THEN conjunct2, THEN conjunct1, rule_format,
      of "[recipe_salad, recipe_curry]"]
  note A = T[THEN conjunct2, THEN conjunct2, THEN conjunct2, THEN conjunct2, THEN conjunct2,
      THEN conjunct2, THEN conjunct2, rule_format,
      of "[\<lparr>attr_id = 4, attr_user = 1, attr_name = ''apple''\<rparr>,
           \<lparr>attr_id = 1, attr_user = 1, attr_name = ''Thai''\<rparr>,
           \<lparr>attr_id = 3, attr_user = 1, attr_name = ''Dinner''\<rparr>]"]
  have r: "[recipe_salad, recipe_curry] = RecipeViewSet_get_queryset 1 example_db"
    by (rule R) (simp_all add: example_db_def recipe_curry_def recipe_soup_def recipe_salad_def)
  have a: "[\<lparr>attr_id = 4, attr_user = 1, attr_name = ''apple''\<rparr>,
            \<lparr>attr_id = 1, attr_user = 1, attr_name = ''Thai''\<rparr>,
            \<lparr>attr_id = 3, attr_user = 1, attr_name = ''Dinner''\<rparr>]
      = BaseRecipeAttributeViewSet_get_queryset 1 example_tags"
    by (rule A) (simp_all add: example_tags_def)
  have e: "table_of Tag example_db = example_tags" by (simp add: example_db_def)
  show ?thesis
    using T[THEN conjunct1]
      T[THEN conjunct2, THEN conjunct2, THEN conjunct2, THEN conjunct2, THEN conjunct1]
    by (simp only: e flip: r a) 
qed

section \<open>Ownership scoping\<close>

lemma set_recipe_queryset:
  "set (RecipeViewSet_get_queryset u db) = {r \<in> set (recipe_rows db). recipe_user r = u}"
  by (auto simp: RecipeViewSet_get_queryset_def set_order_by_desc)

lemma set_attr_queryset:
  "set (BaseRecipeAttributeViewSet_get_queryset u t) = {a \<in> set (attr_rows t). attr_user a = u}"
  by (auto simp: BaseRecipeAttributeViewSet_get_queryset_def set_order_by_desc)

lemma get_object_None:
  "(get_object ident qs pk = None) = (pk \<notin> ident ` set qs)"
  by (auto simp: get_object_def find_None_iff)

lemma same_key_same_row:
  "distinct (map ident xs) \<Longrightarrow> x \<in> set xs \<Longrightarrow> y \<in> set xs \<Longrightarrow> ident x = ident y \<Longrightarrow> x = y"
  by (meson distinct_map inj_on_def)

lemma foreign_recipe_None:
  assumes "u1 \<noteq> u2" "r \<in> set (recipe_rows db)" "recipe_user r = u1"
    "distinct (map recipe_id (recipe_rows db))"
    "pk = recipe_id r \<or> pk \<notin> recipe_id ` set (recipe_rows db)"
  shows "get_object recipe_id (RecipeViewSet_get_queryset u2 db) pk = None"
proof -
  have "x \<in> set (recipe_rows db) \<Longrightarrow> recipe_id x = pk \<Longrightarrow> recipe_user x \<noteq> u2" for x
    using assms same_key_same_row[of recipe_id "recipe_rows db" x r] by auto
  then show ?thesis by (auto simp: get_object_None set_recipe_queryset)
qed

lemma foreign_attr_None:
  assumes "u1 \<noteq> u2" "a \<in> set (attr_rows t)" "attr_user a = u1"
    "distinct (map attr_id (attr_rows t))"
    "pk = attr_id a \<or> pk \<notin> attr_id ` set (attr_rows t)"
  shows "get_object attr_id (BaseRecipeAttributeViewSet_get_queryset u2 t) pk = None"
proof -
  have "x \<in> set (attr_rows t) \<Longrightarrow> attr_id x = pk \<Longrightarrow> attr_user x \<noteq> u2" for x
    using assms same_key_same_row[of attr_id "attr_rows t" x a] by auto
  then show ?thesis by (auto simp: get_object_None set_attr_queryset)
qed

lemma dispatch_recipe_detail:
  "dispatch RecipeViewSet_actions (authenticated u (DetailRoute pk) m d) =
     (case m of GET \<Rightarrow> Inr (u, A_retrieve) | PUT \<Rightarrow> Inr (u, A_update)
      | PATCH \<Rightarrow> Inr (u, A_partial_update) | DELETE \<Rightarrow> Inr (u, A_destroy)
      | POST \<Rightarrow> Inl (HTTP_405_METHOD_NOT_ALLOWED, ErrorBody))"
  by (cases m)
    (simp_all add: authenticated_def dispatch_def get_method_map_def RecipeViewSet_actions_def
      ModelViewSet_def)

lemma dispatch_recipe_upload:
  "dispatch RecipeViewSet_actions (authenticated u (UploadImageRoute pk) POST d) =
     Inr (u, A_upload_image)"
  by (simp add: authenticated_def dispatch_def get_method_map_def RecipeViewSet_actions_def
      ModelViewSet_def)

lemma dispatch_attr_detail:
  "dispatch BaseRecipeAttributeViewSet_actions (authenticated u (DetailRoute pk) m d) =
     (case m of PUT \<Rightarrow> Inr (u, A_update)
      | PATCH \<Rightarrow> Inr (u, A_partial_update) | DELETE \<Rightarrow> Inr (u, A_destroy)
      | _ \<Rightarrow> Inl (HTTP_405_METHOD_NOT_ALLOWED, ErrorBody))"
  by (cases m)
    (simp_all add: authenticated_def dispatch_def get_method_map_def
      BaseRecipeAttributeViewSet_actions_def BaseRecipeAttributeViewSet_mixins_def)

lemma req_authenticated [simp]:
  "req_route (authenticated u r m d) = r" "req_data (authenticated u r m d) = d"
  "req_user (authenticated u r m d) = Some u" "req_method (authenticated u r m d) = m"
  by (simp_all add: authenticated_def)

text \<open>
  C1, as amended. Let \<open>u1\<close> and \<open>u2\<close> be distinct users, and let \<open>pk\<close> be the id of a row
  that \<open>u1\<close> owns or an id that no row has. The row is not among the rows of the list of
  \<open>u2\<close>. On a recipe, get, update, partial update, delete and image upload of \<open>u2\<close> at
  \<open>pk\<close> answer 404 and change nothing, the same for the foreign id and the id that does not
  exist. On a tag or ingredient, update, partial update and delete of \<open>u2\<close> at \<open>pk\<close> answer
  404 and change nothing; there is no get of one tag or ingredient, and \<^verbatim>\<open>GET\<close> on
  the detail route answers 405 whatever the id.
\<close>

theorem cross_owner_not_found:
  assumes "u1 \<noteq> u2"
  shows
    "(r \<in> set (recipe_rows db) \<and> recipe_user r = u1
        \<and> distinct (map recipe_id (recipe_rows db))
        \<and> (pk = recipe_id r \<or> pk \<notin> recipe_id ` set (recipe_rows db)) \<longrightarrow>
        RecipeViewSet V (authenticated u2 ListRoute GET d) db
          = (db, HTTP_200_OK, Recipes (RecipeViewSet_get_queryset u2 db))
        \<and> r \<notin> set (RecipeViewSet_get_queryset u2 db)
        \<and> (\<forall>m \<in> {GET, PUT, PATCH, DELETE}.
             RecipeViewSet V (authenticated u2 (DetailRoute pk) m d) db
               = (db, HTTP_404_NOT_FOUND, ErrorBody))
        \<and> RecipeViewSet V (authenticated u2 (UploadImageRoute pk) POST d) db
             = (db, HTTP_404_NOT_FOUND, ErrorBody))
     \<and> (a \<in> set (attr_rows (table_of k db)) \<and> attr_user a = u1
        \<and> distinct (map attr_id (attr_rows (table_of k db)))
        \<and> (pk = attr_id a \<or> pk \<notin> attr_id ` set (attr_rows (table_of k db))) \<longrightarrow>
        AttributeViewSet k Va (authenticated u2 ListRoute GET d) db
          = (db, HTTP_200_OK,
             Attributes (BaseRecipeAttributeViewSet_get_queryset u2 (table_of k db)))
        \<and> a \<notin> set (BaseRecipeAttributeViewSet_get_queryset u2 (table_of k db))
        \<and> (\<forall>m \<in> {PUT, PATCH, DELETE}.
             AttributeViewSet k Va (authenticated u2 (DetailRoute pk) m d) db
               = (db, HTTP_404_NOT_FOUND, ErrorBody))
        \<and> AttributeViewSet k Va (authenticated u2 (DetailRoute pk) GET d) db
             = (db, HTTP_405_METHOD_NOT_ALLOWED, ErrorBody))"
proof (intro conjI impI)
  assume h: "r \<in> set (recipe_rows db) \<and> recipe_user r = u1
        \<and> distinct (map recipe_id (recipe_rows db))
        \<and> (pk = recipe_id r \<or> pk \<notin> recipe_id ` set (recipe_rows db))"
  have n: "get_object recipe_id (RecipeViewSet_get_queryset u2 db) pk = None"
    by (rule foreign_recipe_None[OF assms, of r]) (use h in simp_all)
  show "RecipeViewSet V (authenticated u2 ListRoute GET d) db
          = (db, HTTP_200_OK, Recipes (RecipeViewSet_get_queryset u2 db))"
    by (simp add: RecipeViewSet_def dispatch_recipe_list recipe_list_def)
  show "r \<notin> set (RecipeViewSet_get_queryset u2 db)"
    using h assms by (simp add: set_recipe_queryset)
  show "\<forall>m \<in> {GET, PUT, PATCH, DELETE}.
             RecipeViewSet V (authenticated u2 (DetailRoute pk) m d) db
               = (db, HTTP_404_NOT_FOUND, ErrorBody)"
    using n
    by (simp add: RecipeViewSet_def dispatch_recipe_detail recipe_retrieve_def
        recipe_update_def recipe_destroy_def)
  show "RecipeViewSet V (authenticated u2 (UploadImageRoute pk) POST d) db
             = (db, HTTP_404_NOT_FOUND, ErrorBody)"
    using n by (simp add: RecipeViewSet_def dispatch_recipe_upload upload_image_def)
next
  assume h: "a \<in> set (attr_rows (table_of k db)) \<and> attr_user a = u1
        \<and> distinct (map attr_id (attr_rows (table_of k db)))
        \<and> (pk = attr_id a \<or> pk \<notin> attr_id ` set (attr_rows (table_of k db)))"
  have n: "get_object attr_id (BaseRecipeAttributeViewSet_get_queryset u2 (table_of k db)) pk
      = None"
    by (rule foreign_attr_None[OF assms, of a]) (use h in simp_all)
  show "AttributeViewSet k Va (authenticated u2 ListRoute GET d) db
          = (db, HTTP_200_OK,
             Attributes (BaseRecipeAttributeViewSet_get_queryset u2 (table_of k db)))"
    by (simp add: AttributeViewSet_def BaseRecipeAttributeViewSet_def dispatch_attr_list
        attr_list_def put_table_same)
  show "a \<notin> set (BaseRecipeAttributeViewSet_get_queryset u2 (table_of k db))"
    using h assms by (simp add: set_attr_queryset)
  show "\<forall>m \<in> {PUT, PATCH, DELETE}.
             AttributeViewSet k Va (authenticated u2 (DetailRoute pk) m d) db
               = (db, HTTP_404_NOT_FOUND, ErrorBody)"
    using n
    by (simp add: AttributeViewSet_def BaseRecipeAttributeViewSet_def dispatch_attr_detail
        attr_update_def attr_destroy_def put_table_same)
  show "AttributeViewSet k Va (authenticated u2 (DetailRoute pk) GET d) db
             = (db, HTTP_405_METHOD_NOT_ALLOWED, ErrorBody)"
    by (simp add: AttributeViewSet_def BaseRecipeAttributeViewSet_def dispatch_attr_detail
        put_table_same)
qed


text \<open>
  User 2 asks for recipe 1 and tag 1 of user 1 in the example database.
\<close>

theorem cross_owner_not_found_witness:
  "RecipeViewSet accept_all (authenticated 2 ListRoute GET no_input) example_db
     = (example_db, HTTP_200_OK, Recipes (RecipeViewSet_get_queryset 2 example_db))
   \<and> recipe_curry \<notin> set (RecipeViewSet_get_queryset 2 example_db)
   \<and> RecipeViewSet accept_all (authenticated 2 (DetailRoute 1) GET no_input) example_db
       = (example_db, HTTP_404_NOT_FOUND, ErrorBody)
   \<and> RecipeViewSet accept_all (authenticated 2 (DetailRoute 1) PATCH no_input) example_db
       = (example_db, HTTP_404_NOT_FOUND, ErrorBody)
   \<and> RecipeViewSet accept_all (authenticated 2 (DetailRoute 1) DELETE no_input) example_db
       = (example_db, HTTP_404_NOT_FOUND, ErrorBody)
   \<and> AttributeViewSet Tag accept_name (authenticated 2 (DetailRoute 1) PUT no_input) example_db
       = (example_db, HTTP_404_NOT_FOUND, ErrorBody)
   \<and> AttributeViewSet Tag accept_name (authenticated 2 (DetailRoute 1) DELETE no_input) example_db
       = (example_db, HTTP_404_NOT_FOUND, ErrorBody)"
proof -
  have ne: "(1::nat) \<noteq> 2" by simp
  note T = cross_owner_not_found[OF ne, where r = recipe_curry and db = example_db and pk = 1
      and a = "\<lparr>attr_id = 1, attr_user = 1, attr_name = ''Thai''\<rparr>" and k = Tag
      and V = accept_all and d = no_input and Va = accept_name]
  have hr: "recipe_curry \<in> set (recipe_rows example_db) \<and> recipe_user recipe_curry = 1
        \<and> distinct (map recipe_id (recipe_rows example_db))
        \<and> (1 = recipe_id recipe_curry \<or> 1 \<notin> recipe_id ` set (recipe_rows example_db))"
    by (simp add: example_db_def recipe_curry_def recipe_soup_def recipe_salad_def)
  have ha: "\<lparr>attr_id = 1, attr_user = 1, attr_name = ''Thai''\<rparr>
          \<in> set (attr_rows (table_of Tag example_db))
        \<and> attr_user \<lparr>attr_id = 1, attr_user = 1, attr_name = ''Thai''\<rparr> = 1
        \<and> distinct (map attr_id (attr_rows (table_of Tag example_db)))
        \<and> (1 = attr_id \<lparr>attr_id = 1, attr_user = 1, attr_name = ''Thai''\<rparr>
            \<or> 1 \<notin> attr_id ` set (attr_rows (table_of Tag example_db)))"
    by (simp add: example_db_def example_tags_def)
  note R = T[THEN conjunct1, THEN mp, OF hr]
  note A = T[THEN conjunct2, THEN mp, OF ha]
  show ?thesis using R A by simp
qed

text \<open>
  C1 as stated fails: tag 1 belongs to user 1, and the get of user 2 on its id is answered
  405, not 404.
\<close>

theorem cross_owner_tag_get_counterexample:
  "\<lparr>attr_id = 1, attr_user = 1, attr_name = ''Thai''\<rparr> \<in> set (attr_rows (table_of Tag example_db))
   \<and> AttributeViewSet Tag accept_name (authenticated 2 (DetailRoute 1) GET no_input) example_db
       = (example_db, HTTP_405_METHOD_NOT_ALLOWED, ErrorBody)
   \<and> fst (snd (AttributeViewSet Tag accept_name (authenticated 2 (DetailRoute 1) GET no_input)
        example_db)) \<noteq> HTTP_404_NOT_FOUND"
  by (simp add: AttributeViewSet_def BaseRecipeAttributeViewSet_def dispatch_attr_detail
      put_table_same) (simp add: example_db_def example_tags_def)

subsection \<open>The operations of the tag and ingredient API\<close>

lemma table_of_put_table: "table_of k (put_table k t db) = t"
  by (cases k) simp_all

lemma attr_action_rows:
  assumes "BaseRecipeAttributeViewSet_action V u a r d t = (t', resp)"
  shows "set (map attr_id (attr_rows t')) \<subseteq> set (map attr_id (attr_rows t))
       \<and> length (attr_rows t') \<le> length (attr_rows t)"
proof -
  have upd: "map attr_id (map (\<lambda>x. if attr_id x = attr_id b then b\<lparr>attr_name := n\<rparr> else x) xs)
      = map attr_id xs" for b n and xs :: "attribute list"
    by (induction xs) auto
  have ids: "set (map attr_id (attr_rows t')) \<subseteq> set (map attr_id (attr_rows t))"
    using assms
    apply (cases "(V, u, a, r, d, t)" rule: BaseRecipeAttributeViewSet_action.cases)
    apply (auto simp: attr_list_def attr_update_def attr_destroy_def
        split: option.splits if_splits)
    apply (metis imageI)+
    done
  have len: "length (attr_rows t') \<le> length (attr_rows t)"
    using assms
    by (cases "(V, u, a, r, d, t)" rule: BaseRecipeAttributeViewSet_action.cases)
      (auto simp: attr_list_def attr_update_def attr_destroy_def
        split: option.splits if_splits)
  show ?thesis using ids len by simp
qed

lemma attr_viewset_rows:
  assumes "AttributeViewSet k V req db = (db', resp)"
  shows "set (map attr_id (attr_rows (table_of k db')))
           \<subseteq> set (map attr_id (attr_rows (table_of k db)))
       \<and> length (attr_rows (table_of k db')) \<le> length (attr_rows (table_of k db))"
proof (cases "dispatch BaseRecipeAttributeViewSet_actions req")
  case (Inl e)
  then show ?thesis
    using assms by (auto simp: AttributeViewSet_def BaseRecipeAttributeViewSet_def table_of_put_table)
next
  case (Inr p)
  obtain u a where p: "p = (u, a)" by (cases p)
  obtain t' r' where e: "BaseRecipeAttributeViewSet_action V u a (req_route req) (req_data req)
      (table_of k db) = (t', r')"
    by (cases "BaseRecipeAttributeViewSet_action V u a (req_route req) (req_data req)
      (table_of k db)")
  have "db' = put_table k t' db"
    using assms Inr p e by (simp add: AttributeViewSet_def BaseRecipeAttributeViewSet_def)
  then show ?thesis using attr_action_rows[OF e] by (simp add: table_of_put_table)
qed

text \<open>
  C8, as amended. The tag and ingredient view set has the actions list, update, partial
  update and destroy and no others. \<^verbatim>\<open>GET\<close> is bound on the list route only,
  \<^verbatim>\<open>PUT\<close>, \<^verbatim>\<open>PATCH\<close> and \<^verbatim>\<open>DELETE\<close> on the detail route only;
  \<^verbatim>\<open>POST\<close> on either route and \<^verbatim>\<open>GET\<close> on the detail route answer 405 and
  change nothing. No request to this API brings a row into existence: the ids of the rows
  after it are ids of rows before it, and there are no more rows than before.
\<close>

theorem attribute_api_operations:
  "set BaseRecipeAttributeViewSet_actions = {A_list, A_update, A_partial_update, A_destroy}
   \<and> get_method_map BaseRecipeAttributeViewSet_actions ListRoute = [(GET, A_list)]
   \<and> get_method_map BaseRecipeAttributeViewSet_actions (DetailRoute pk)
       = [(PUT, A_update), (PATCH, A_partial_update), (DELETE, A_destroy)]
   \<and> AttributeViewSet k Va (authenticated u ListRoute POST d) db
       = (db, HTTP_405_METHOD_NOT_ALLOWED, ErrorBody)
   \<and> AttributeViewSet k Va (authenticated u (DetailRoute pk) POST d) db
       = (db, HTTP_405_METHOD_NOT_ALLOWED, ErrorBody)
   \<and> AttributeViewSet k Va (authenticated u (DetailRoute pk) GET d) db
       = (db, HTTP_405_METHOD_NOT_ALLOWED, ErrorBody)
   \<and> (\<forall>req db' resp. AttributeViewSet k Va req db = (db', resp) \<longrightarrow>
         set (map attr_id (attr_rows (table_of k db')))
           \<subseteq> set (map attr_id (attr_rows (table_of k db)))
         \<and> length (attr_rows (table_of k db')) \<le> length (attr_rows (table_of k db)))"
proof (intro conjI allI impI)
  show "set BaseRecipeAttributeViewSet_actions = {A_list, A_update, A_partial_update, A_destroy}"
    by (auto simp: BaseRecipeAttributeViewSet_actions_def BaseRecipeAttributeViewSet_mixins_def)
  show "get_method_map BaseRecipeAttributeViewSet_actions ListRoute = [(GET, A_list)]"
    by (simp add: get_method_map_def BaseRecipeAttributeViewSet_actions_def
        BaseRecipeAttributeViewSet_mixins_def)
  show "get_method_map BaseRecipeAttributeViewSet_actions (DetailRoute pk)
       = [(PUT, A_update), (PATCH, A_partial_update), (DELETE, A_destroy)]"
    by (simp add: get_method_map_def BaseRecipeAttributeViewSet_actions_def
        BaseRecipeAttributeViewSet_mixins_def)
  show "AttributeViewSet k Va (authenticated u ListRoute POST d) db
       = (db, HTTP_405_METHOD_NOT_ALLOWED, ErrorBody)"
    by (simp add: AttributeViewSet_def BaseRecipeAttributeViewSet_def put_table_same
        authenticated_def dispatch_def get_method_map_def BaseRecipeAttributeViewSet_actions_def
        BaseRecipeAttributeViewSet_mixins_def)
  show "AttributeViewSet k Va (authenticated u (DetailRoute pk) POST d) db
       = (db, HTTP_405_METHOD_NOT_ALLOWED, ErrorBody)"
    by (simp add: AttributeViewSet_def BaseRecipeAttributeViewSet_def dispatch_attr_detail
        put_table_same)
  show "AttributeViewSet k Va (authenticated u (DetailRoute pk) GET d) db
       = (db, HTTP_405_METHOD_NOT_ALLOWED, ErrorBody)"
    by (simp add: AttributeViewSet_def BaseRecipeAttributeViewSet_def dispatch_attr_detail
        put_table_same)
next
  fix req db' resp
  assume a: "AttributeViewSet k Va req db = (db', resp)"
  show "set (map attr_id (attr_rows (table_of k db')))
           \<subseteq> set (map attr_id (attr_rows (table_of k db)))"
    using attr_viewset_rows[OF a] by simp
  show "length (attr_rows (table_of k db')) \<le> length (attr_rows (table_of k db))"
    using attr_viewset_rows[OF a] by simp
qed

text \<open>
  User 1 posts to the tag list and deletes tag 4 in the example database.
\<close>

theorem attribute_api_operations_witness:
  "AttributeViewSet Tag accept_name (authenticated 1 ListRoute POST no_input) example_db
     = (example_db, HTTP_405_METHOD_NOT_ALLOWED, ErrorBody)
   \<and> get_method_map BaseRecipeAttributeViewSet_actions (DetailRoute 4)
       = [(PUT, A_update), (PATCH, A_partial_update), (DELETE, A_destroy)]
   \<and> length (attr_rows (table_of Tag
         (fst (AttributeViewSet Tag accept_name (authenticated 1 (DetailRoute 4) DELETE no_input)
            example_db))))
       \<le> length (attr_rows (table_of Tag example_db))"
proof -
  note T = attribute_api_operations[where k = Tag and Va = accept_name and db = example_db
      and u = 1 and d = no_input and pk = 4]
  let ?X = "AttributeViewSet Tag accept_name (authenticated 1 (DetailRoute 4) DELETE no_input)
      example_db"
  note L = T[THEN conjunct2, THEN conjunct2, THEN conjunct2, THEN conjunct2, THEN conjunct2,
      THEN conjunct2, rule_format,
      of "authenticated 1 (DetailRoute 4) DELETE no_input" "fst ?X" "snd ?X"]
  have "?X = (fst ?X, snd ?X)" by simp
  from L[OF this] T show ?thesis by simp
qed

text \<open>
  C8 as stated fails: \<^verbatim>\<open>GET\<close> on \<^verbatim>\<open>/ingredients/1\<close> by the owner of
  ingredient 1 is answered 405.
\<close>

theorem ingredient_detail_get_counterexample:
  "\<lparr>attr_id = 1, attr_user = 1, attr_name = ''Prawn''\<rparr>
     \<in> set (attr_rows (table_of Ingredient example_db))
   \<and> IngredientViewSet accept_name (authenticated 1 (DetailRoute 1) GET no_input) example_db
       = (example_db, HTTP_405_METHOD_NOT_ALLOWED, ErrorBody)"
  by (simp add: IngredientViewSet_def AttributeViewSet_def BaseRecipeAttributeViewSet_def
      dispatch_attr_detail put_table_same) (simp add: example_db_def example_ingredients_def)

section \<open>Image upload\<close>

lemma find_Some_member: "find P xs = Some x \<Longrightarrow> x \<in> set xs \<and> P x"
  by (induction xs) (simp_all split: if_splits)

lemma find_unique:
  assumes "x \<in> set xs" and "P x" and "\<And>y. y \<in> set xs \<Longrightarrow> P y \<Longrightarrow> y = x"
  shows "find P xs = Some x"
proof (cases "find P xs")
  case None
  then show ?thesis using assms(1,2) by (simp add: find_None_iff)
next
  case (Some y)
  then have "y \<in> set xs \<and> P y" by (rule find_Some_member)
  then have "y = x" using assms(3) by simp
  then show ?thesis using Some by simp
qed

lemma get_object_SomeD:
  "get_object ident qs pk = Some x \<Longrightarrow> x \<in> set qs \<and> ident x = pk"
  unfolding get_object_def by (rule find_Some_member)

lemma get_object_own_recipe:
  assumes "r \<in> set (recipe_rows db)" "recipe_user r = u"
    "distinct (map recipe_id (recipe_rows db))"
  shows "get_object recipe_id (RecipeViewSet_get_queryset u db) (recipe_id r) = Some r"
  unfolding get_object_def
proof (rule find_unique)
  show "r \<in> set (RecipeViewSet_get_queryset u db)"
    using assms by (simp add: set_recipe_queryset)
  show "recipe_id r = recipe_id r" by simp
  fix y assume "y \<in> set (RecipeViewSet_get_queryset u db)" "recipe_id y = recipe_id r"
  then have "y \<in> set (recipe_rows db)" by (simp add: set_recipe_queryset)
  then show "y = r"
    using assms(1,3) \<open>recipe_id y = recipe_id r\<close> by (rule_tac same_key_same_row)
qed

lemma replace_row_others:
  "ident y = k \<Longrightarrow>
   filter (\<lambda>x. ident x \<noteq> k) (map (\<lambda>x. if ident x = k then y else x) xs)
     = filter (\<lambda>x. ident x \<noteq> k) xs"
  by (induction xs) simp_all

lemma replace_row_same_fields:
  assumes "\<And>x. x \<in> set xs \<Longrightarrow> recipe_id x = recipe_id r \<Longrightarrow> x = r"
  shows "map (\<lambda>x. x\<lparr>recipe_image := None\<rparr>)
           (map (\<lambda>x. if recipe_id x = recipe_id r then r\<lparr>recipe_image := v\<rparr> else x) xs)
         = map (\<lambda>x. x\<lparr>recipe_image := None\<rparr>) xs"
proof -
  have "(if recipe_id x = recipe_id r then r\<lparr>recipe_image := v\<rparr> else x)\<lparr>recipe_image := None\<rparr>
      = x\<lparr>recipe_image := None\<rparr>" if "x \<in> set xs" for x
    using assms[OF that] by (cases "recipe_id x = recipe_id r") simp_all
  then show ?thesis by simp
qed

lemma reconcile_both_absent:
  "v_tags vd = None \<Longrightarrow> v_ingredients vd = None \<Longrightarrow> reconcile_both u rid vd db = db"
  by (simp add: reconcile_both_def reconcile_def)

lemma image_serializer_fields:
  "set_fields (to_internal_value RecipeImageSerializer d) r =
     (case p_image d of Some (Decodable ref) \<Rightarrow> r\<lparr>recipe_image := Some ref\<rparr> | _ \<Rightarrow> r)"
  by (simp add: set_fields_def or_default_def split: option.splits upload.splits)

lemma upload_image_ok:
  assumes "get_object recipe_id (RecipeViewSet_get_queryset u db) pk = Some r"
    and "p_image d = Some (Decodable ref)"
  shows "RecipeViewSet V (authenticated u (UploadImageRoute pk) POST d) db =
     (db\<lparr>recipe_rows :=
          map (\<lambda>x. if recipe_id x = recipe_id r then r\<lparr>recipe_image := Some ref\<rparr> else x)
            (recipe_rows db)\<rparr>,
      HTTP_200_OK, OneRecipe (r\<lparr>recipe_image := Some ref\<rparr>))"
  using assms
  by (simp add: RecipeViewSet_def dispatch_recipe_upload upload_image_def
      get_serializer_class_def serializer_update_def set_fields_def or_default_def
      reconcile_both_absent Let_def)

lemma upload_image_bad:
  assumes "get_object recipe_id (RecipeViewSet_get_queryset u db) pk = Some r"
    and "\<And>ref. p_image d \<noteq> Some (Decodable ref)"
  shows "RecipeViewSet V (authenticated u (UploadImageRoute pk) POST d) db =
     (db, HTTP_400_BAD_REQUEST, ErrorBody)"
  using assms
  by (simp add: RecipeViewSet_def dispatch_recipe_upload upload_image_def
      get_serializer_class_def split: option.splits upload.splits)

lemma upload_image_missing:
  assumes "get_object recipe_id (RecipeViewSet_get_queryset u db) pk = None"
  shows "RecipeViewSet V (authenticated u (UploadImageRoute pk) POST d) db =
     (db, HTTP_404_NOT_FOUND, ErrorBody)"
  using assms by (simp add: RecipeViewSet_def dispatch_recipe_upload upload_image_def)

text \<open>
  C7. The owner of a recipe posts to its upload-image route. When the image of the payload
  decodes, the answer is 200 with the recipe carrying the new image reference, and that row
  stands in the table in place of the old one. When it does not decode, or the payload has
  no image, the answer is 400 and the database is the one before the request: the recipe and
  its image reference are unchanged.
\<close>

theorem upload_image_status:
  assumes "r \<in> set (recipe_rows db)" "recipe_user r = u"
    "distinct (map recipe_id (recipe_rows db))"
  shows
    "(p_image d = Some (Decodable ref) \<longrightarrow>
        RecipeViewSet V (authenticated u (UploadImageRoute (recipe_id r)) POST d) db =
          (db\<lparr>recipe_rows :=
               map (\<lambda>x. if recipe_id x = recipe_id r then r\<lparr>recipe_image := Some ref\<rparr> else x)
                 (recipe_rows db)\<rparr>,
           HTTP_200_OK, OneRecipe (r\<lparr>recipe_image := Some ref\<rparr>)))
     \<and> ((\<forall>ref. p_image d \<noteq> Some (Decodable ref)) \<longrightarrow>
        RecipeViewSet V (authenticated u (UploadImageRoute (recipe_id r)) POST d) db =
          (db, HTTP_400_BAD_REQUEST, ErrorBody))"
proof -
  note g = get_object_own_recipe[OF assms]
  show ?thesis
  proof (intro conjI impI)
    assume "p_image d = Some (Decodable ref)"
    then show "RecipeViewSet V (authenticated u (UploadImageRoute (recipe_id r)) POST d) db =
          (db\<lparr>recipe_rows :=
               map (\<lambda>x. if recipe_id x = recipe_id r then r\<lparr>recipe_image := Some ref\<rparr> else x)
                 (recipe_rows db)\<rparr>,
           HTTP_200_OK, OneRecipe (r\<lparr>recipe_image := Some ref\<rparr>))"
      by (rule upload_image_ok[OF g])
  next
    assume "\<forall>ref. p_image d \<noteq> Some (Decodable ref)"
    then show "RecipeViewSet V (authenticated u (UploadImageRoute (recipe_id r)) POST d) db =
          (db, HTTP_400_BAD_REQUEST, ErrorBody)"
      by (intro upload_image_bad[OF g]) simp
  qed
qed

text \<open>
  C10. The upload action is served by the image serializer. An upload that answers 200
  leaves every recipe equal to what it was up to its image, leaves every recipe other than
  the one addressed as it was, and leaves the sequence, the tags, the ingredients and their
  links to recipes as they were, whatever else the payload carries.
\<close>

theorem upload_image_frame:
  assumes "distinct (map recipe_id (recipe_rows db))"
    and "RecipeViewSet V (authenticated u (UploadImageRoute pk) POST d) db = (db', HTTP_200_OK, b)"
  shows "get_serializer_class A_upload_image = RecipeImageSerializer
     \<and> map (\<lambda>x. x\<lparr>recipe_image := None\<rparr>) (recipe_rows db')
         = map (\<lambda>x. x\<lparr>recipe_image := None\<rparr>) (recipe_rows db)
     \<and> filter (\<lambda>x. recipe_id x \<noteq> pk) (recipe_rows db')
         = filter (\<lambda>x. recipe_id x \<noteq> pk) (recipe_rows db)
     \<and> recipe_seq db' = recipe_seq db
     \<and> tag_table db' = tag_table db
     \<and> ingredient_table db' = ingredient_table db"
proof (cases "get_object recipe_id (RecipeViewSet_get_queryset u db) pk")
  case None
  then show ?thesis using assms(2) upload_image_missing[OF None, of V d] by simp
next
  case (Some r)
  have r: "r \<in> set (recipe_rows db)" "recipe_id r = pk"
    using get_object_SomeD[OF Some] by (simp_all add: set_recipe_queryset)
  show ?thesis
  proof (cases "\<exists>ref. p_image d = Some (Decodable ref)")
    case False
    then show ?thesis using assms(2) upload_image_bad[OF Some, of d V] by simp
  next
    case True
    then obtain ref where ref: "p_image d = Some (Decodable ref)" by blast
    let ?f = "\<lambda>x. if recipe_id x = recipe_id r then r\<lparr>recipe_image := Some ref\<rparr> else x"
    have db': "db' = db\<lparr>recipe_rows := map ?f (recipe_rows db)\<rparr>"
      using assms(2) upload_image_ok[OF Some ref, of V] by simp
    have same: "x \<in> set (recipe_rows db) \<Longrightarrow> recipe_id x = recipe_id r \<Longrightarrow> x = r" for x
      using same_key_same_row[OF assms(1), of x r] r by simp
    have m: "map (\<lambda>x. x\<lparr>recipe_image := None\<rparr>) (map ?f (recipe_rows db))
        = map (\<lambda>x. x\<lparr>recipe_image := None\<rparr>) (recipe_rows db)"
      by (rule replace_row_same_fields) (use same in simp_all)
    have f: "filter (\<lambda>x. recipe_id x \<noteq> pk) (map ?f (recipe_rows db))
        = filter (\<lambda>x. recipe_id x \<noteq> pk) (recipe_rows db)"
      using r(2) replace_row_others[of recipe_id "r\<lparr>recipe_image := Some ref\<rparr>" "recipe_id r"
          "recipe_rows db"]
      by simp
    show ?thesis using db' m f by (simp add: get_serializer_class_def)
  qed
qed

text \<open>Facts of the example database.\<close>

lemma example_recipe_ids: "distinct (map recipe_id (recipe_rows example_db))"
  by (simp add: example_db_def recipe_curry_def recipe_soup_def recipe_salad_def)

lemma example_salad: "recipe_salad \<in> set (recipe_rows example_db)" "recipe_user recipe_salad = 1"
  "recipe_id recipe_salad = 3"
  by (simp_all add: example_db_def recipe_salad_def)

text \<open>
  User 1 uploads to recipe 3 of the example database, which has an image: first an image
  that decodes, then a file that does not.
\<close>

theorem upload_image_status_witness:
  "RecipeViewSet accept_all
     (authenticated 1 (UploadImageRoute 3) POST
        (no_input\<lparr>p_image := Some (Decodable ''uploads/recipe/new.jpg'')\<rparr>)) example_db
     = (example_db\<lparr>recipe_rows :=
          [recipe_curry, recipe_soup,
           recipe_salad\<lparr>recipe_image := Some ''uploads/recipe/new.jpg''\<rparr>]\<rparr>,
        HTTP_200_OK, OneRecipe (recipe_salad\<lparr>recipe_image := Some ''uploads/recipe/new.jpg''\<rparr>))
   \<and> RecipeViewSet accept_all
       (authenticated 1 (UploadImageRoute 3) POST (no_input\<lparr>p_image := Some Undecodable\<rparr>))
       example_db
     = (example_db, HTTP_400_BAD_REQUEST, ErrorBody)
   \<and> recipe_image recipe_salad = Some ''uploads/recipe/old.jpg''"
proof -
  note A = upload_image_status[OF example_salad(1,2) example_recipe_ids,
      where d = "no_input\<lparr>p_image := Some (Decodable ''uploads/recipe/new.jpg'')\<rparr>"
        and ref = "''uploads/recipe/new.jpg''" and V = accept_all, THEN conjunct1, THEN mp]
  note B = upload_image_status[OF example_salad(1,2) example_recipe_ids,
      where d = "no_input\<lparr>p_image := Some Undecodable\<rparr>" and V = accept_all,
      THEN conjunct2, THEN mp]
  have rows: "map (\<lambda>x. if recipe_id x = 3
        then recipe_salad\<lparr>recipe_image := Some ''uploads/recipe/new.jpg''\<rparr> else x)
      (recipe_rows example_db)
      = [recipe_curry, recipe_soup, recipe_salad\<lparr>recipe_image := Some ''uploads/recipe/new.jpg''\<rparr>]"
    by (simp add: example_db_def recipe_curry_def recipe_soup_def recipe_salad_def)
  have a: "p_image (no_input\<lparr>p_image := Some (Decodable ''uploads/recipe/new.jpg'')\<rparr>)
      = Some (Decodable ''uploads/recipe/new.jpg'')" by simp
  have b: "\<forall>ref. p_image (no_input\<lparr>p_image := Some Undecodable\<rparr>) \<noteq> Some (Decodable ref)"
    by simp
  have c: "recipe_image recipe_salad = Some ''uploads/recipe/old.jpg''"
    by (simp add: recipe_salad_def)
  show ?thesis
    using A[OF a] B[OF b] c by (simp add: rows example_salad(3))
qed

text \<open>
  User 1 uploads an image to recipe 3 with a title and an empty tag list in the same
  payload.
\<close>

theorem upload_image_frame_witness:
  "fst (snd (RecipeViewSet accept_all
     (authenticated 1 (UploadImageRoute 3) POST
        (no_input\<lparr>p_image := Some (Decodable ''uploads/recipe/new.jpg''),
                  p_title := Some ''Another title'', p_tags := Some []\<rparr>)) example_db))
     = HTTP_200_OK
   \<and> map (\<lambda>x. x\<lparr>recipe_image := None\<rparr>)
       (recipe_rows (fst (RecipeViewSet accept_all
         (authenticated 1 (UploadImageRoute 3) POST
            (no_input\<lparr>p_image := Some (Decodable ''uploads/recipe/new.jpg''),
                      p_title := Some ''Another title'', p_tags := Some []\<rparr>)) example_db)))
     = map (\<lambda>x. x\<lparr>recipe_image := None\<rparr>) [recipe_curry, recipe_soup, recipe_salad]
   \<and> tag_table (fst (RecipeViewSet accept_all
         (authenticated 1 (UploadImageRoute 3) POST
            (no_input\<lparr>p_image := Some (Decodable ''uploads/recipe/new.jpg''),
                      p_title := Some ''Another title'', p_tags := Some []\<rparr>)) example_db))
     = example_tags"
proof -
  let ?d = "no_input\<lparr>p_image := Some (Decodable ''uploads/recipe/new.jpg''),
                  p_title := Some ''Another title'', p_tags := Some []\<rparr>"
  let ?X = "RecipeViewSet accept_all (authenticated 1 (UploadImageRoute 3) POST ?d) example_db"
  have g: "get_object recipe_id (RecipeViewSet_get_queryset 1 example_db) 3 = Some recipe_salad"
    using get_object_own_recipe[OF example_salad(1,2) example_recipe_ids]
    by (simp add: example_salad(3))
  have i: "p_image ?d = Some (Decodable ''uploads/recipe/new.jpg'')" by simp
  note X = upload_image_ok[OF g i, of accept_all]
  note T = upload_image_frame[OF example_recipe_ids X]
  show ?thesis using T X by (simp add: example_db_def)
qed

section \<open>The owner of a recipe\<close>

lemma set_fields_keeps [simp]:
  "recipe_id (set_fields vd r) = recipe_id r" "recipe_user (set_fields vd r) = recipe_user r"
  by (simp_all add: set_fields_def)

lemma recipe_rows_reconcile_both [simp]:
  "recipe_rows (reconcile_both u rid vd db) = recipe_rows db"
  "recipe_seq (reconcile_both u rid vd db) = recipe_seq db"
  by (simp_all add: reconcile_both_def)

lemma owners_kept_refl: "distinct (map recipe_id (recipe_rows db)) \<Longrightarrow> owners_kept db db"
  unfolding owners_kept_def using same_key_same_row[of recipe_id "recipe_rows db"] by metis

lemma owners_kept_subset:
  assumes "distinct (map recipe_id (recipe_rows db))"
    and "set (recipe_rows db') \<subseteq> set (recipe_rows db)"
  shows "owners_kept db db'"
  unfolding owners_kept_def
  using same_key_same_row[of recipe_id "recipe_rows db"] assms by (metis subsetD)

lemma serializer_create_result:
  "serializer_create u vd db = (r, db') \<Longrightarrow>
     recipe_user r = u \<and> recipe_id r = recipe_seq db \<and> recipe_rows db' = recipe_rows db @ [r]"
  by (auto simp: serializer_create_def Let_def)

lemma serializer_update_result:
  "serializer_update u inst vd db = (r, db') \<Longrightarrow>
     r = set_fields vd inst \<and>
     recipe_rows db' = map (\<lambda>x. if recipe_id x = recipe_id inst then r else x) (recipe_rows db)"
  by (auto simp: serializer_update_def Let_def)

lemma owners_kept_create:
  assumes ok: "recipes_ok db" and c: "serializer_create u vd db = (r, db')"
  shows "owners_kept db db'"
  unfolding owners_kept_def
proof (intro ballI impI)
  fix x x' assume x: "x \<in> set (recipe_rows db)" and x': "x' \<in> set (recipe_rows db')"
    and e: "recipe_id x' = recipe_id x"
  note R = serializer_create_result[OF c]
  have lt: "recipe_id x < recipe_seq db" using ok x by (simp add: recipes_ok_def list_all_iff)
  have "x' \<in> set (recipe_rows db)" using x' R e lt by auto
  then have "x' = x"
    using ok x e same_key_same_row[of recipe_id "recipe_rows db" x' x]
    by (simp add: recipes_ok_def)
  then show "recipe_user x' = recipe_user x" by simp
qed

lemma owners_kept_update:
  assumes d: "distinct (map recipe_id (recipe_rows db))" and i: "inst \<in> set (recipe_rows db)"
    and c: "serializer_update u inst vd db = (r, db')"
  shows "owners_kept db db'"
  unfolding owners_kept_def
proof (intro ballI impI)
  fix x x' assume x: "x \<in> set (recipe_rows db)" and x': "x' \<in> set (recipe_rows db')"
    and e: "recipe_id x' = recipe_id x"
  note R = serializer_update_result[OF c]
  from x' R obtain y where y: "y \<in> set (recipe_rows db)"
    and x'y: "x' = (if recipe_id y = recipe_id inst then set_fields vd inst else y)"
    by auto
  have "recipe_id x' = recipe_id y" "recipe_user x' = recipe_user y"
  proof -
    show "recipe_id x' = recipe_id y" using x'y by (simp split: if_splits)
    have "recipe_id y = recipe_id inst \<Longrightarrow> y = inst"
      using same_key_same_row[OF d y i] by simp
    then show "recipe_user x' = recipe_user y" using x'y by (auto split: if_splits)
  qed
  moreover have "y = x" using same_key_same_row[OF d y x] e calculation(1) by simp
  ultimately show "recipe_user x' = recipe_user x" by simp
qed

lemma queryset_row:
  "get_object recipe_id (RecipeViewSet_get_queryset u db) pk = Some r \<Longrightarrow>
     r \<in> set (recipe_rows db) \<and> recipe_user r = u \<and> recipe_id r = pk"
  using get_object_SomeD[of recipe_id "RecipeViewSet_get_queryset u db" pk r]
  by (simp add: set_recipe_queryset)

lemma owners_kept_recipe_update:
  assumes d: "distinct (map recipe_id (recipe_rows db))"
  shows "owners_kept db (fst (recipe_update V partial u pk d db))"
proof (cases "get_object recipe_id (RecipeViewSet_get_queryset u db) pk")
  case None
  then show ?thesis using owners_kept_refl[OF d] by (simp add: recipe_update_def)
next
  case (Some inst)
  let ?cls = "get_serializer_class (if partial then A_partial_update else A_update)"
  show ?thesis
  proof (cases "is_valid V ?cls partial d")
    case False
    then show ?thesis using Some owners_kept_refl[OF d] by (simp add: recipe_update_def)
  next
    case True
    obtain r1 db1 where s: "serializer_update u inst (to_internal_value ?cls d) db = (r1, db1)"
      by (cases "serializer_update u inst (to_internal_value ?cls d) db")
    have "fst (recipe_update V partial u pk d db) = db1"
      using Some True s by (simp add: recipe_update_def)
    then show ?thesis using owners_kept_update[OF d _ s] queryset_row[OF Some] by simp
  qed
qed

lemma owners_kept_upload_image:
  assumes d: "distinct (map recipe_id (recipe_rows db))"
  shows "owners_kept db (fst (upload_image V u pk d db))"
proof (cases "get_object recipe_id (RecipeViewSet_get_queryset u db) pk")
  case None
  then show ?thesis using owners_kept_refl[OF d] by (simp add: upload_image_def)
next
  case (Some inst)
  let ?cls = "get_serializer_class A_upload_image"
  show ?thesis
  proof (cases "is_valid V ?cls False d")
    case False
    then show ?thesis using Some owners_kept_refl[OF d] by (simp add: upload_image_def)
  next
    case True
    obtain r1 db1 where s: "serializer_update u inst (to_internal_value ?cls d) db = (r1, db1)"
      by (cases "serializer_update u inst (to_internal_value ?cls d) db")
    have "fst (upload_image V u pk d db) = db1"
      using Some True s by (simp add: upload_image_def)
    then show ?thesis using owners_kept_update[OF d _ s] queryset_row[OF Some] by simp
  qed
qed

lemma owners_kept_recipe_create:
  assumes ok: "recipes_ok db"
  shows "owners_kept db (fst (recipe_create V u d db))"
proof (cases "is_valid V (get_serializer_class A_create) False d")
  case False
  then show ?thesis
    using ok owners_kept_refl[of db] by (simp add: recipe_create_def recipes_ok_def)
next
  case True
  obtain r1 db1 where s: "serializer_create u (to_internal_value (get_serializer_class A_create) d) db
      = (r1, db1)"
    by (cases "serializer_create u (to_internal_value (get_serializer_class A_create) d) db")
  have "fst (recipe_create V u d db) = db1"
    using True s by (simp add: recipe_create_def perform_create_def)
  then show ?thesis using owners_kept_create[OF ok s] by simp
qed

lemma owners_kept_recipe_destroy:
  assumes d: "distinct (map recipe_id (recipe_rows db))"
  shows "owners_kept db (fst (recipe_destroy u pk db))"
proof (cases "get_object recipe_id (RecipeViewSet_get_queryset u db) pk")
  case None
  then show ?thesis using owners_kept_refl[OF d] by (simp add: recipe_destroy_def)
next
  case (Some inst)
  then have "set (recipe_rows (fst (recipe_destroy u pk db))) \<subseteq> set (recipe_rows db)"
    by (auto simp: recipe_destroy_def)
  then show ?thesis by (rule owners_kept_subset[OF d])
qed

lemma owners_kept_action:
  assumes ok: "recipes_ok db"
  shows "owners_kept db (fst (RecipeViewSet_action V u a r d db))"
proof -
  have d: "distinct (map recipe_id (recipe_rows db))" using ok by (simp add: recipes_ok_def)
  show ?thesis
    by (cases "(V, u, a, r, d, db)" rule: RecipeViewSet_action.cases)
      (simp_all add: recipe_list_def recipe_retrieve_def owners_kept_refl[OF d]
        owners_kept_recipe_update[OF d] owners_kept_upload_image[OF d]
        owners_kept_recipe_create[OF ok] owners_kept_recipe_destroy[OF d]
        split: option.splits)
qed

lemma owners_kept_viewset:
  assumes ok: "recipes_ok db"
  shows "owners_kept db (fst (RecipeViewSet V req db))"
proof (cases "dispatch RecipeViewSet_actions req")
  case (Inl e)
  then show ?thesis
    using ok owners_kept_refl[of db] by (simp add: RecipeViewSet_def recipes_ok_def)
next
  case (Inr p)
  then show ?thesis
    using owners_kept_action[OF ok] by (cases p) (simp add: RecipeViewSet_def)
qed

lemma to_internal_value_no_user [simp]:
  "to_internal_value cls (d\<lparr>p_user := x\<rparr>) = to_internal_value cls d"
  by (cases cls) simp_all

lemma is_valid_no_user [simp]:
  "is_valid V cls partial (d\<lparr>p_user := x\<rparr>) = is_valid V cls partial d"
  by (cases cls) simp_all

lemma action_no_user:
  "RecipeViewSet_action V u a r (d\<lparr>p_user := x\<rparr>) db = RecipeViewSet_action V u a r d db"
  by (cases "(V, u, a, r, d, db)" rule: RecipeViewSet_action.cases)
    (simp_all add: recipe_create_def recipe_update_def upload_image_def Let_def
      split: option.splits)

lemma viewset_no_user:
  "RecipeViewSet V (req\<lparr>req_data := (req_data req)\<lparr>p_user := x\<rparr>\<rparr>) db = RecipeViewSet V req db"
proof -
  have "dispatch RecipeViewSet_actions (req\<lparr>req_data := (req_data req)\<lparr>p_user := x\<rparr>\<rparr>)
      = dispatch RecipeViewSet_actions req"
    by (simp add: dispatch_def Let_def split: option.splits)
  then show ?thesis by (simp add: RecipeViewSet_def action_no_user split: sum.splits)
qed

lemma dispatch_recipe_create:
  "dispatch RecipeViewSet_actions (authenticated u ListRoute POST d) = Inr (u, A_create)"
  by (simp add: authenticated_def dispatch_def get_method_map_def RecipeViewSet_actions_def
      ModelViewSet_def)

lemma recipe_create_valid:
  assumes "V False (to_internal_value RecipeDetailSerializer d)"
  shows "RecipeViewSet V (authenticated u ListRoute POST d) db =
     (snd (serializer_create u (to_internal_value RecipeDetailSerializer d) db),
      HTTP_201_CREATED,
      OneRecipe (fst (serializer_create u (to_internal_value RecipeDetailSerializer d) db)))"
  using assms
  by (simp add: RecipeViewSet_def dispatch_recipe_create recipe_create_def
      get_serializer_class_def perform_create_def split: prod.splits)

text \<open>
  C3. In a database whose recipe keys are unique and issued by the sequence: a create
  request that validation accepts answers 201 with a new recipe whose owner is the caller,
  whatever the payload says; after any request to the recipe API every recipe that is still
  there has the owner it had; and a \<^verbatim>\<open>user\<close> key in the payload changes neither the
  answer nor the resulting database of any request, so it is dropped without an error.
\<close>

theorem recipe_owner_fixed:
  assumes "recipes_ok db"
  shows
    "(V False (to_internal_value RecipeDetailSerializer d) \<longrightarrow>
        (\<exists>r db'. RecipeViewSet V (authenticated u ListRoute POST d) db
                    = (db', HTTP_201_CREATED, OneRecipe r)
           \<and> recipe_user r = u \<and> r \<in> set (recipe_rows db')
           \<and> recipe_id r \<notin> recipe_id ` set (recipe_rows db)))
     \<and> owners_kept db (fst (RecipeViewSet V req db))
     \<and> RecipeViewSet V (req\<lparr>req_data := (req_data req)\<lparr>p_user := x\<rparr>\<rparr>) db
         = RecipeViewSet V req db"
proof (intro conjI impI)
  assume v: "V False (to_internal_value RecipeDetailSerializer d)"
  let ?c = "serializer_create u (to_internal_value RecipeDetailSerializer d) db"
  have c: "?c = (fst ?c, snd ?c)" by simp
  note R = serializer_create_result[OF c]
  have "recipe_id (fst ?c) \<notin> recipe_id ` set (recipe_rows db)"
    using assms R by (auto simp: recipes_ok_def list_all_iff)
  then show "\<exists>r db'. RecipeViewSet V (authenticated u ListRoute POST d) db
                    = (db', HTTP_201_CREATED, OneRecipe r)
           \<and> recipe_user r = u \<and> r \<in> set (recipe_rows db')
           \<and> recipe_id r \<notin> recipe_id ` set (recipe_rows db)"
    using recipe_create_valid[where V = V and d = d and u = u and db = db, OF v] R by simp
next
  show "owners_kept db (fst (RecipeViewSet V req db))"
    by (rule owners_kept_viewset[OF assms])
  show "RecipeViewSet V (req\<lparr>req_data := (req_data req)\<lparr>p_user := x\<rparr>\<rparr>) db
         = RecipeViewSet V req db"
    by (rule viewset_no_user)
qed

lemma example_recipes_ok: "recipes_ok example_db"
  by (simp add: recipes_ok_def example_db_def recipe_curry_def recipe_soup_def recipe_salad_def)

text \<open>
  User 1 creates a recipe and patches recipe 1 of the example database, each time with
  \<^verbatim>\<open>user\<close> set to 2.
\<close>

theorem recipe_owner_fixed_witness:
  "(\<exists>r db'. RecipeViewSet accept_all
        (authenticated 1 ListRoute POST (no_input\<lparr>p_title := Some ''Pie'', p_user := Some 2\<rparr>))
        example_db = (db', HTTP_201_CREATED, OneRecipe r)
      \<and> recipe_user r = 1 \<and> r \<in> set (recipe_rows db')
      \<and> recipe_id r \<notin> recipe_id ` set (recipe_rows example_db))
   \<and> RecipeViewSet accept_all
       (authenticated 1 (DetailRoute 1) PATCH (no_input\<lparr>p_user := Some 2\<rparr>)) example_db
     = RecipeViewSet accept_all (authenticated 1 (DetailRoute 1) PATCH no_input) example_db
   \<and> owners_kept example_db
       (fst (RecipeViewSet accept_all
          (authenticated 1 (DetailRoute 1) PATCH (no_input\<lparr>p_user := Some 2\<rparr>)) example_db))
   \<and> RecipeViewSet accept_all (authenticated 1 (DetailRoute 1) PATCH no_input) example_db
     = (example_db, HTTP_200_OK, OneRecipe recipe_curry)
   \<and> recipe_user recipe_curry = 1"
proof -
  note T = recipe_owner_fixed[OF example_recipes_ok, where V = accept_all and u = 1
      and d = "no_input\<lparr>p_title := Some ''Pie'', p_user := Some 2\<rparr>"
      and req = "authenticated 1 (DetailRoute 1) PATCH (no_input\<lparr>p_user := Some 2\<rparr>)"
      and x = None]
  have v: "accept_all False
      (to_internal_value RecipeDetailSerializer (no_input\<lparr>p_title := Some ''Pie'', p_user := Some 2\<rparr>))"
    by (simp add: accept_all_def)
  have e: "(authenticated 1 (DetailRoute 1) PATCH (no_input\<lparr>p_user := Some 2\<rparr>))
      \<lparr>req_data := (req_data (authenticated 1 (DetailRoute 1) PATCH (no_input\<lparr>p_user := Some 2\<rparr>)))
         \<lparr>p_user := None\<rparr>\<rparr>
      = authenticated 1 (DetailRoute 1) PATCH no_input"
    by (simp add: authenticated_def no_input_def)
  have g: "get_object recipe_id (RecipeViewSet_get_queryset 1 example_db) 1 = Some recipe_curry"
    using get_object_own_recipe[of recipe_curry example_db 1] example_recipe_ids
    by (simp add: example_db_def recipe_curry_def)
  have rows: "map (\<lambda>x. if recipe_id x = recipe_id recipe_curry then recipe_curry else x)
      (recipe_rows example_db) = recipe_rows example_db"
    by (simp add: example_db_def recipe_curry_def recipe_soup_def recipe_salad_def)
  have p: "RecipeViewSet accept_all (authenticated 1 (DetailRoute 1) PATCH no_input) example_db
     = (example_db, HTTP_200_OK, OneRecipe recipe_curry)"
    using g
    by (simp add: RecipeViewSet_def dispatch_recipe_detail recipe_update_def
        get_serializer_class_def accept_all_def serializer_update_def set_fields_def
        or_default_def reconcile_both_absent no_input_def rows)
  have u: "recipe_user recipe_curry = 1" by (simp add: recipe_curry_def)
  show ?thesis
    using T[THEN conjunct1, THEN mp, OF v] T[THEN conjunct2, THEN conjunct1]
      T[THEN conjunct2, THEN conjunct2, unfolded e, symmetric] p u
    by (intro conjI)
qed

section \<open>The nested-entity reconciler\<close>

subsection \<open>Find-or-create\<close>

lemma find_snoc:
  "find P (xs @ ys) = (case find P xs of None \<Rightarrow> find P ys | Some x \<Rightarrow> Some x)"
  by (induction xs) simp_all

lemma get_or_create_found:
  "find (\<lambda>b. attr_user b = u \<and> attr_name b = n) (attr_rows t) = Some a \<Longrightarrow>
     get_or_create u n t = (a, t)"
  by (simp add: get_or_create_def)

lemma get_or_create_new:
  "find (\<lambda>b. attr_user b = u \<and> attr_name b = n) (attr_rows t) = None \<Longrightarrow>
     get_or_create u n t =
       (\<lparr>attr_id = attr_seq t, attr_user = u, attr_name = n\<rparr>,
        t\<lparr>attr_rows := attr_rows t @ [\<lparr>attr_id = attr_seq t, attr_user = u, attr_name = n\<rparr>],
          attr_seq := Suc (attr_seq t)\<rparr>)"
  by (simp add: get_or_create_def Let_def)

lemma get_or_create_row:
  assumes "get_or_create u n t = (a, t')"
  shows "attr_user a = u \<and> attr_name a = n
       \<and> find (\<lambda>b. attr_user b = u \<and> attr_name b = n) (attr_rows t') = Some a
       \<and> attr_links t' = attr_links t"
proof (cases "find (\<lambda>b. attr_user b = u \<and> attr_name b = n) (attr_rows t)")
  case None
  then show ?thesis using assms get_or_create_new[OF None] by (auto simp: find_snoc)
next
  case (Some b)
  then show ?thesis
    using assms get_or_create_found[OF Some] find_Some_member[OF Some] by auto
qed

lemma get_or_create_rows:
  assumes "get_or_create u n t = (a, t')"
  shows "\<exists>new. attr_rows t' = attr_rows t @ new
           \<and> (\<forall>b \<in> set new. attr_user b = u \<and> attr_name b = n)"
proof (cases "find (\<lambda>b. attr_user b = u \<and> attr_name b = n) (attr_rows t)")
  case None
  then show ?thesis using assms get_or_create_new[OF None] by auto
next
  case (Some b)
  then show ?thesis using assms get_or_create_found[OF Some] by auto
qed

lemma get_or_create_table_ok:
  assumes "get_or_create u n t = (a, t')" and "table_ok t"
  shows "table_ok t'"
proof (cases "find (\<lambda>b. attr_user b = u \<and> attr_name b = n) (attr_rows t)")
  case None
  have "attr_seq t \<notin> attr_id ` set (attr_rows t)"
    using assms(2) by (auto simp: table_ok_def list_all_iff)
  moreover have "list_all (\<lambda>a. attr_id a < Suc (attr_seq t)) (attr_rows t)"
    using assms(2) by (auto simp: table_ok_def list_all_iff)
  ultimately show ?thesis
    using assms get_or_create_new[OF None] by (auto simp: table_ok_def)
next
  case (Some b)
  then show ?thesis using assms get_or_create_found[OF Some] by auto
qed

lemma get_or_create_unique_names:
  assumes "get_or_create u n t = (a, t')" and "unique_names t"
  shows "unique_names t'"
proof (cases "find (\<lambda>b. attr_user b = u \<and> attr_name b = n) (attr_rows t)")
  case None
  then have "(u, n) \<notin> (\<lambda>a. (attr_user a, attr_name a)) ` set (attr_rows t)"
    by (auto simp: find_None_iff)
  then show ?thesis
    using assms get_or_create_new[OF None] by (auto simp: unique_names_def)
next
  case (Some b)
  then show ?thesis using assms get_or_create_found[OF Some] by auto
qed

subsection \<open>Resolving a list of names\<close>

lemma resolve_all_Cons:
  assumes "resolve_all u (n # ns) t = (as, t')"
  obtains a t1 bs where "get_or_create u n t = (a, t1)" "resolve_all u ns t1 = (bs, t')"
    "as = a # bs"
  using assms by (auto split: prod.splits)

lemma resolve_all_rows:
  "resolve_all u ns t = (as, t') \<Longrightarrow>
     \<exists>new. attr_rows t' = attr_rows t @ new
        \<and> (\<forall>b \<in> set new. attr_user b = u \<and> attr_name b \<in> set ns)"
proof (induction ns arbitrary: t as)
  case Nil
  then show ?case by simp
next
  case (Cons n ns)
  from Cons.prems obtain a t1 bs where g: "get_or_create u n t = (a, t1)"
    and r: "resolve_all u ns t1 = (bs, t')" and "as = a # bs"
    by (rule resolve_all_Cons)
  from get_or_create_rows[OF g] obtain new1 where n1: "attr_rows t1 = attr_rows t @ new1"
    "\<forall>b \<in> set new1. attr_user b = u \<and> attr_name b = n" by blast
  from Cons.IH[OF r] obtain new2 where n2: "attr_rows t' = attr_rows t1 @ new2"
    "\<forall>b \<in> set new2. attr_user b = u \<and> attr_name b \<in> set ns" by blast
  have "attr_rows t' = attr_rows t @ (new1 @ new2)" using n1 n2 by simp
  moreover have "\<forall>b \<in> set (new1 @ new2). attr_user b = u \<and> attr_name b \<in> set (n # ns)"
    using n1 n2 by auto
  ultimately show ?case by blast
qed

lemma resolve_all_links: "resolve_all u ns t = (as, t') \<Longrightarrow> attr_links t' = attr_links t"
proof (induction ns arbitrary: t as)
  case Nil
  then show ?case by simp
next
  case (Cons n ns)
  from Cons.prems obtain a t1 bs where g: "get_or_create u n t = (a, t1)"
    and r: "resolve_all u ns t1 = (bs, t')" and "as = a # bs"
    by (rule resolve_all_Cons)
  show ?case using Cons.IH[OF r] get_or_create_row[OF g] by simp
qed

lemma resolve_all_table_ok: "resolve_all u ns t = (as, t') \<Longrightarrow> table_ok t \<Longrightarrow> table_ok t'"
proof (induction ns arbitrary: t as)
  case Nil
  then show ?case by simp
next
  case (Cons n ns)
  from Cons.prems(1) obtain a t1 bs where g: "get_or_create u n t = (a, t1)"
    and r: "resolve_all u ns t1 = (bs, t')" and "as = a # bs"
    by (rule resolve_all_Cons)
  show ?case using Cons.IH[OF r] get_or_create_table_ok[OF g Cons.prems(2)] by simp
qed

lemma resolve_all_unique_names:
  "resolve_all u ns t = (as, t') \<Longrightarrow> unique_names t \<Longrightarrow> unique_names t'"
proof (induction ns arbitrary: t as)
  case Nil
  then show ?case by simp
next
  case (Cons n ns)
  from Cons.prems(1) obtain a t1 bs where g: "get_or_create u n t = (a, t1)"
    and r: "resolve_all u ns t1 = (bs, t')" and "as = a # bs"
    by (rule resolve_all_Cons)
  show ?case using Cons.IH[OF r] get_or_create_unique_names[OF g Cons.prems(2)] by simp
qed

text \<open>Each resolved row is the row that find-or-create finds for its name in the final table.\<close>

lemma find_stays:
  "find P xs = Some a \<Longrightarrow> find P (xs @ ys) = Some a"
  by (simp add: find_snoc)

lemma resolve_all_resolved:
  "resolve_all u ns t = (as, t') \<Longrightarrow>
     map attr_name as = ns
     \<and> (\<forall>a \<in> set as. attr_user a = u
           \<and> find (\<lambda>b. attr_user b = u \<and> attr_name b = attr_name a) (attr_rows t') = Some a)"
proof (induction ns arbitrary: t as)
  case Nil
  then show ?case by simp
next
  case (Cons n ns)
  from Cons.prems obtain a t1 bs where g: "get_or_create u n t = (a, t1)"
    and r: "resolve_all u ns t1 = (bs, t')" and as: "as = a # bs"
    by (rule resolve_all_Cons)
  note G = get_or_create_row[OF g]
  from resolve_all_rows[OF r] obtain new where new: "attr_rows t' = attr_rows t1 @ new"
    by blast
  have "find (\<lambda>b. attr_user b = u \<and> attr_name b = attr_name a) (attr_rows t') = Some a"
    using G new by (simp add: find_stays)
  then show ?case using Cons.IH[OF r] G as by simp
qed

subsection \<open>Replacing the association\<close>

lemma associated_set_association:
  "associated (set_association rid resolved t) rid = attr_id ` set resolved"
proof -
  have a: "map snd (filter (\<lambda>(r, a). r = rid) (filter (\<lambda>(r, a). r \<noteq> rid) xs)) = []"
    for xs :: "(nat \<times> nat) list"
    by (induction xs) auto
  have b: "map snd (filter (\<lambda>(r, a). r = rid) (map (\<lambda>a. (rid, attr_id a)) ys))
      = map attr_id ys" for ys :: "attribute list"
    by (induction ys) auto
  have "map snd (filter (\<lambda>(r, a). r = rid) (attr_links (set_association rid resolved t)))
      = map attr_id (remdups resolved)"
    unfolding set_association_def by (simp add: a b del: filter_filter)
  then show ?thesis by (simp add: associated_def)
qed

lemma associated_set_association_other:
  "rid' \<noteq> rid \<Longrightarrow> associated (set_association rid resolved t) rid' = associated t rid'"
proof -
  assume ne: "rid' \<noteq> rid"
  have a: "map snd (filter (\<lambda>(r, a). r = rid') (filter (\<lambda>(r, a). r \<noteq> rid) xs))
      = map snd (filter (\<lambda>(r, a). r = rid') xs)" for xs :: "(nat \<times> nat) list"
    using ne by (induction xs) auto
  have b: "map snd (filter (\<lambda>(r, a). r = rid') (map (\<lambda>a. (rid, attr_id a)) ys)) = []"
    for ys :: "attribute list"
    using ne by (induction ys) auto
  have "map snd (filter (\<lambda>(r, a). r = rid') (attr_links (set_association rid resolved t)))
      = map snd (filter (\<lambda>(r, a). r = rid') (attr_links t))"
    unfolding set_association_def by (simp add: a b del: filter_filter)
  then show ?thesis by (simp add: associated_def)
qed

lemma attr_rows_set_association [simp]:
  "attr_rows (set_association rid resolved t) = attr_rows t"
  by (simp add: set_association_def)

lemma reconcile_Some:
  "resolve_all u ns t = (as, t') \<Longrightarrow> reconcile u rid (Some ns) t = set_association rid as t'"
  by (simp add: reconcile_def)

lemma reconcile_None [simp]: "reconcile u rid None t = t"
  by (simp add: reconcile_def)

lemma reconcile_empty:
  "associated (reconcile u rid (Some []) t) rid = {}"
  "attr_rows (reconcile u rid (Some []) t) = attr_rows t"
  by (simp_all add: reconcile_def associated_set_association)

text \<open>The tables after a write of the recipe serializer.\<close>

lemma tables_serializer_update:
  "tag_table (snd (serializer_update u inst vd db))
     = reconcile u (recipe_id inst) (v_tags vd) (tag_table db)"
  "ingredient_table (snd (serializer_update u inst vd db))
     = reconcile u (recipe_id inst) (v_ingredients vd) (ingredient_table db)"
  by (simp_all add: serializer_update_def Let_def reconcile_both_def)

lemma tables_serializer_create:
  "tag_table (snd (serializer_create u vd db))
     = reconcile u (recipe_seq db) (v_tags vd) (tag_table db)"
  "ingredient_table (snd (serializer_create u vd db))
     = reconcile u (recipe_seq db) (v_ingredients vd) (ingredient_table db)"
  by (simp_all add: serializer_create_def Let_def reconcile_both_def)

lemma recipe_update_valid:
  assumes "get_object recipe_id (RecipeViewSet_get_queryset u db) pk = Some inst"
    and "V partial (to_internal_value RecipeDetailSerializer d)"
  shows "recipe_update V partial u pk d db =
     (snd (serializer_update u inst (to_internal_value RecipeDetailSerializer d) db),
      HTTP_200_OK,
      OneRecipe (fst (serializer_update u inst (to_internal_value RecipeDetailSerializer d) db)))"
proof -
  have cls: "get_serializer_class (if partial then A_partial_update else A_update)
      = RecipeDetailSerializer"
    by (simp add: get_serializer_class_def)
  have v: "is_valid V RecipeDetailSerializer partial d" using assms(2) by simp
  show ?thesis
    unfolding recipe_update_def cls using assms(1) v
    by (simp add: Let_def split: prod.splits)
qed

lemma update_serializer_class:
  "get_serializer_class (if partial then A_partial_update else A_update) = RecipeDetailSerializer"
  by (simp add: get_serializer_class_def)

lemma recipe_update_tables:
  "tag_table (fst (recipe_update V partial u pk d db))
     = (case get_object recipe_id (RecipeViewSet_get_queryset u db) pk of
          None \<Rightarrow> tag_table db
        | Some inst \<Rightarrow>
            if V partial (to_internal_value RecipeDetailSerializer d)
            then reconcile u pk (p_tags d) (tag_table db) else tag_table db)"
  "ingredient_table (fst (recipe_update V partial u pk d db))
     = (case get_object recipe_id (RecipeViewSet_get_queryset u db) pk of
          None \<Rightarrow> ingredient_table db
        | Some inst \<Rightarrow>
            if V partial (to_internal_value RecipeDetailSerializer d)
            then reconcile u pk (p_ingredients d) (ingredient_table db)
            else ingredient_table db)"
proof -
  have pk: "recipe_id inst = pk"
    if "get_object recipe_id (RecipeViewSet_get_queryset u db) pk = Some inst" for inst
    using get_object_SomeD[OF that] by simp
  show "tag_table (fst (recipe_update V partial u pk d db))
     = (case get_object recipe_id (RecipeViewSet_get_queryset u db) pk of
          None \<Rightarrow> tag_table db
        | Some inst \<Rightarrow>
            if V partial (to_internal_value RecipeDetailSerializer d)
            then reconcile u pk (p_tags d) (tag_table db) else tag_table db)"
  proof (cases "get_object recipe_id (RecipeViewSet_get_queryset u db) pk")
    case None
    then show ?thesis by (simp add: recipe_update_def)
  next
    case (Some inst)
    show ?thesis
    proof (cases "V partial (to_internal_value RecipeDetailSerializer d)")
      case True
      note e = recipe_update_valid[where V = V and partial = partial and d = d, OF Some True]
      show ?thesis
        unfolding e using Some True pk[OF Some] by (simp add: tables_serializer_update)
    next
      case False
      then have "\<not> is_valid V RecipeDetailSerializer partial d" by simp
      then show ?thesis
        using Some False unfolding recipe_update_def update_serializer_class
        by (simp add: Let_def)
    qed
  qed
  show "ingredient_table (fst (recipe_update V partial u pk d db))
     = (case get_object recipe_id (RecipeViewSet_get_queryset u db) pk of
          None \<Rightarrow> ingredient_table db
        | Some inst \<Rightarrow>
            if V partial (to_internal_value RecipeDetailSerializer d)
            then reconcile u pk (p_ingredients d) (ingredient_table db)
            else ingredient_table db)"
  proof (cases "get_object recipe_id (RecipeViewSet_get_queryset u db) pk")
    case None
    then show ?thesis by (simp add: recipe_update_def)
  next
    case (Some inst)
    show ?thesis
    proof (cases "V partial (to_internal_value RecipeDetailSerializer d)")
      case True
      note e = recipe_update_valid[where V = V and partial = partial and d = d, OF Some True]
      show ?thesis
        unfolding e using Some True pk[OF Some] by (simp add: tables_serializer_update)
    next
      case False
      then have "\<not> is_valid V RecipeDetailSerializer partial d" by simp
      then show ?thesis
        using Some False unfolding recipe_update_def update_serializer_class
        by (simp add: Let_def)
    qed
  qed
qed

lemma recipe_create_tables:
  "tag_table (fst (recipe_create V u d db))
     = (if V False (to_internal_value RecipeDetailSerializer d)
        then reconcile u (recipe_seq db) (p_tags d) (tag_table db) else tag_table db)"
  "ingredient_table (fst (recipe_create V u d db))
     = (if V False (to_internal_value RecipeDetailSerializer d)
        then reconcile u (recipe_seq db) (p_ingredients d) (ingredient_table db)
        else ingredient_table db)"
proof -
  let ?vd = "to_internal_value RecipeDetailSerializer d"
  have c: "recipe_create V u d db =
      (if V False ?vd
       then (snd (serializer_create u ?vd db), HTTP_201_CREATED,
             OneRecipe (fst (serializer_create u ?vd db)))
       else (db, HTTP_400_BAD_REQUEST, ErrorBody))"
    by (simp add: recipe_create_def get_serializer_class_def perform_create_def
        split: prod.splits)
  show "tag_table (fst (recipe_create V u d db))
     = (if V False (to_internal_value RecipeDetailSerializer d)
        then reconcile u (recipe_seq db) (p_tags d) (tag_table db) else tag_table db)"
    unfolding c by (simp add: tables_serializer_create)
  show "ingredient_table (fst (recipe_create V u d db))
     = (if V False (to_internal_value RecipeDetailSerializer d)
        then reconcile u (recipe_seq db) (p_ingredients d) (ingredient_table db)
        else ingredient_table db)"
    unfolding c by (simp add: tables_serializer_create)
qed

lemma viewset_write:
  "RecipeViewSet V (authenticated u (DetailRoute pk) PATCH d) db = recipe_update V True u pk d db"
  "RecipeViewSet V (authenticated u (DetailRoute pk) PUT d) db = recipe_update V False u pk d db"
  "RecipeViewSet V (authenticated u ListRoute POST d) db = recipe_create V u d db"
  by (simp_all add: RecipeViewSet_def dispatch_recipe_detail dispatch_recipe_create)

lemma resolved_in_table:
  assumes "resolve_all u ns t = (as, t')" and "a \<in> set as"
  shows "a \<in> set (attr_rows t')" "attr_user a = u" "attr_name a \<in> set ns"
proof -
  note R = resolve_all_resolved[OF assms(1)]
  note Ra = R[THEN conjunct2, rule_format, OF assms(2)]
  show "a \<in> set (attr_rows t')" using find_Some_member[OF Ra[THEN conjunct2]] by simp
  show "attr_user a = u" using Ra by simp
  have "attr_name a \<in> set (map attr_name as)" using assms(2) by simp
  then show "attr_name a \<in> set ns" using R[THEN conjunct1] by simp
qed

lemma resolved_same_name:
  assumes "resolve_all u ns t = (as, t')" and "a \<in> set as" and "b \<in> set as"
    and "attr_name a = attr_name b"
  shows "a = b"
proof -
  note R = resolve_all_resolved[OF assms(1), THEN conjunct2, rule_format]
  have fa: "find (\<lambda>c. attr_user c = u \<and> attr_name c = attr_name a) (attr_rows t') = Some a"
    by (rule R[OF assms(2), THEN conjunct2])
  have fb: "find (\<lambda>c. attr_user c = u \<and> attr_name c = attr_name b) (attr_rows t') = Some b"
    by (rule R[OF assms(3), THEN conjunct2])
  have "Some a = Some b" by (metis fa fb assms(4))
  then show ?thesis by (rule option.inject[THEN iffD1])
qed

lemma resolved_names: "resolve_all u ns t = (as, t') \<Longrightarrow> attr_name ` set as = set ns"
proof -
  assume "resolve_all u ns t = (as, t')"
  then have "map attr_name as = ns" by (rule resolve_all_resolved[THEN conjunct1])
  then have "set (map attr_name as) = set ns" by simp
  then show ?thesis by simp
qed

lemma associated_reconcile:
  assumes "resolve_all u ns t = (as, t')"
  shows "associated (reconcile u rid (Some ns) t) rid = attr_id ` set as"
    and "attr_rows (reconcile u rid (Some ns) t) = attr_rows t'"
    and "attr_seq (reconcile u rid (Some ns) t) = attr_seq t'"
proof -
  show "associated (reconcile u rid (Some ns) t) rid = attr_id ` set as"
    by (simp add: reconcile_Some[OF assms] associated_set_association)
  show "attr_rows (reconcile u rid (Some ns) t) = attr_rows t'"
    by (simp add: reconcile_Some[OF assms])
  show "attr_seq (reconcile u rid (Some ns) t) = attr_seq t'"
    by (simp add: reconcile_Some[OF assms] set_association_def)
qed

lemma resolved_rows:
  assumes r: "resolve_all u ns t = (as, t')" and ok: "table_ok t"
  shows "set (associated_rows (reconcile u rid (Some ns) t) rid) = set as"
    and "inj_on attr_id (set as)"
proof -
  have d: "distinct (map attr_id (attr_rows t'))"
    using resolve_all_table_ok[OF r ok] by (simp add: table_ok_def)
  show inj: "inj_on attr_id (set as)"
  proof (rule inj_onI)
    fix a b assume "a \<in> set as" "b \<in> set as" "attr_id a = attr_id b"
    then show "a = b"
      using same_key_same_row[OF d, of a b] resolved_in_table(1)[OF r] by simp
  qed
  show "set (associated_rows (reconcile u rid (Some ns) t) rid) = set as"
  proof (intro set_eqI iffI)
    fix a assume "a \<in> set (associated_rows (reconcile u rid (Some ns) t) rid)"
    then have a: "a \<in> set (attr_rows t')" "attr_id a \<in> attr_id ` set as"
      by (simp_all add: associated_rows_def associated_reconcile[OF r])
    from a(2) obtain b where b: "b \<in> set as" "attr_id a = attr_id b" by (rule imageE)
    have "a = b"
      by (rule same_key_same_row[OF d a(1) _ b(2)]) (rule resolved_in_table(1)[OF r b(1)])
    then show "a \<in> set as" using b(1) by simp
  next
    fix a assume "a \<in> set as"
    then show "a \<in> set (associated_rows (reconcile u rid (Some ns) t) rid)"
      using resolved_in_table(1)[OF r]
      by (simp add: associated_rows_def associated_reconcile[OF r])
  qed
qed

lemma reconcile_card:
  assumes "table_ok t"
  shows "card (associated (reconcile u rid (Some ns) t) rid) = card (set ns)"
proof -
  let ?r = "resolve_all u ns t"
  have r: "?r = (fst ?r, snd ?r)" by simp
  have n: "inj_on attr_name (set (fst ?r))"
    by (rule inj_onI) (rule resolved_same_name[OF r])
  have "card (attr_id ` set (fst ?r)) = card (set (fst ?r))"
    by (rule card_image) (rule resolved_rows(2)[OF r assms])
  also have "\<dots> = card (attr_name ` set (fst ?r))"
    by (rule card_image[OF n, symmetric])
  also have "\<dots> = card (set ns)" by (simp only: resolved_names[OF r])
  finally show ?thesis by (simp only: associated_reconcile(1)[OF r])
qed

lemma reconcile_names:
  assumes "table_ok t"
  shows "associated_names (reconcile u rid (Some ns) t) rid = {u} \<times> set ns"
proof -
  let ?r = "resolve_all u ns t"
  have r: "?r = (fst ?r, snd ?r)" by simp
  have "(\<lambda>a. (attr_user a, attr_name a)) ` set (fst ?r) = {u} \<times> set ns"
  proof (intro set_eqI iffI)
    fix p assume "p \<in> (\<lambda>a. (attr_user a, attr_name a)) ` set (fst ?r)"
    then obtain a where a: "a \<in> set (fst ?r)" "p = (attr_user a, attr_name a)"
      by (rule imageE)
    show "p \<in> {u} \<times> set ns" using resolved_in_table(2,3)[OF r a(1)] a(2) by simp
  next
    fix p assume "p \<in> {u} \<times> set ns"
    then have p: "fst p = u" "snd p \<in> set ns" by auto
    from p(2) resolved_names[OF r] have "snd p \<in> attr_name ` set (fst ?r)" by simp
    then obtain a where a: "a \<in> set (fst ?r)" "snd p = attr_name a" by (rule imageE)
    have "p = (attr_user a, attr_name a)"
      using resolved_in_table(2)[OF r a(1)] a(2) p(1) by (simp add: prod_eq_iff)
    then show "p \<in> (\<lambda>a. (attr_user a, attr_name a)) ` set (fst ?r)" using a(1) by simp
  qed
  then show ?thesis by (simp only: associated_names_def resolved_rows(1)[OF r assms])
qed

text \<open>Facts of the example tags.\<close>

lemma example_tags_ok: "table_ok example_tags" "unique_names example_tags"
  by (simp_all add: table_ok_def unique_names_def example_tags_def)

lemma example_tag_links: "associated example_tags 1 = {1, 3}"
  by (auto simp: associated_def example_tags_def)

text \<open>
  C4. Find-or-create is scoped to the owner and the name. In a table whose names are unique
  per owner, a name that the user already has resolves to that row and the table stays as it
  is, so no second row is made. A name that the user does not have makes one new row with
  that owner and name and an id that no row has, and leaves every other row, also a row of
  the same name under another owner, in the table. A row of another owner is never the
  result. Resolving a list gives one row per name, each owned by the current user and in the
  resulting table, keeps every row there was, and keeps names unique per owner and keys
  unique.
\<close>

theorem find_or_create_scoped:
  "(a \<in> set (attr_rows t) \<and> attr_user a = u \<and> attr_name a = n \<and> unique_names t \<longrightarrow>
      get_or_create u n t = (a, t))
   \<and> ((\<forall>b \<in> set (attr_rows t). \<not> (attr_user b = u \<and> attr_name b = n)) \<and> table_ok t \<longrightarrow>
      get_or_create u n t =
        (\<lparr>attr_id = attr_seq t, attr_user = u, attr_name = n\<rparr>,
         t\<lparr>attr_rows := attr_rows t @ [\<lparr>attr_id = attr_seq t, attr_user = u, attr_name = n\<rparr>],
           attr_seq := Suc (attr_seq t)\<rparr>)
      \<and> attr_seq t \<notin> attr_id ` set (attr_rows t))
   \<and> (b \<in> set (attr_rows t) \<and> attr_user b \<noteq> u \<longrightarrow>
      fst (get_or_create u n t) \<noteq> b \<and> b \<in> set (attr_rows (snd (get_or_create u n t))))
   \<and> (resolve_all u ns t = (as, t') \<longrightarrow>
      map attr_name as = ns
      \<and> (\<forall>a \<in> set as. attr_user a = u \<and> a \<in> set (attr_rows t'))
      \<and> set (attr_rows t) \<subseteq> set (attr_rows t')
      \<and> (unique_names t \<longrightarrow> unique_names t')
      \<and> (table_ok t \<longrightarrow> table_ok t'))"
proof (intro conjI impI)
  assume h: "a \<in> set (attr_rows t) \<and> attr_user a = u \<and> attr_name a = n \<and> unique_names t"
  let ?P = "\<lambda>b. attr_user b = u \<and> attr_name b = n"
  have "find ?P (attr_rows t) = Some a"
  proof (rule find_unique)
    show "a \<in> set (attr_rows t)" using h by simp
    show "?P a" using h by simp
    fix y assume y: "y \<in> set (attr_rows t)" "?P y"
    have d: "distinct (map (\<lambda>a. (attr_user a, attr_name a)) (attr_rows t))"
      using h by (simp add: unique_names_def)
    show "y = a"
      by (rule same_key_same_row[OF d y(1)]) (use h y(2) in simp_all)
  qed
  then show "get_or_create u n t = (a, t)" by (rule get_or_create_found)
next
  assume h: "(\<forall>b \<in> set (attr_rows t). \<not> (attr_user b = u \<and> attr_name b = n)) \<and> table_ok t"
  then have "find (\<lambda>b. attr_user b = u \<and> attr_name b = n) (attr_rows t) = None"
    by (simp add: find_None_iff)
  then show "get_or_create u n t =
        (\<lparr>attr_id = attr_seq t, attr_user = u, attr_name = n\<rparr>,
         t\<lparr>attr_rows := attr_rows t @ [\<lparr>attr_id = attr_seq t, attr_user = u, attr_name = n\<rparr>],
           attr_seq := Suc (attr_seq t)\<rparr>)"
    by (rule get_or_create_new)
  show "attr_seq t \<notin> attr_id ` set (attr_rows t)"
    using h by (auto simp: table_ok_def list_all_iff)
next
  assume h: "b \<in> set (attr_rows t) \<and> attr_user b \<noteq> u"
  let ?g = "get_or_create u n t"
  have g: "?g = (fst ?g, snd ?g)" by simp
  show "fst ?g \<noteq> b" using get_or_create_row[OF g] h by auto
  from get_or_create_rows[OF g] obtain new where "attr_rows (snd ?g) = attr_rows t @ new"
    by blast
  then show "b \<in> set (attr_rows (snd ?g))" using h by simp
next
  assume r: "resolve_all u ns t = (as, t')"
  show "map attr_name as = ns" using resolve_all_resolved[OF r] by simp
  show "\<forall>a \<in> set as. attr_user a = u \<and> a \<in> set (attr_rows t')"
    using resolved_in_table[OF r] by blast
  from resolve_all_rows[OF r] obtain new where "attr_rows t' = attr_rows t @ new" by blast
  then show "set (attr_rows t) \<subseteq> set (attr_rows t')" by simp
  show "unique_names t'" if "unique_names t" using resolve_all_unique_names[OF r that] .
  show "table_ok t'" if "table_ok t" using resolve_all_table_ok[OF r that] .
qed

text \<open>
  In the example tags user 1 has a tag Thai and user 2 has one too: user 1 resolves Thai,
  user 2 resolves Dinner, which only user 1 has, and Thai.
\<close>

theorem find_or_create_scoped_witness:
  "get_or_create 1 ''Thai'' example_tags
     = (\<lparr>attr_id = 1, attr_user = 1, attr_name = ''Thai''\<rparr>, example_tags)
   \<and> get_or_create 2 ''Dinner'' example_tags
     = (\<lparr>attr_id = 5, attr_user = 2, attr_name = ''Dinner''\<rparr>,
        example_tags\<lparr>attr_rows := attr_rows example_tags
                          @ [\<lparr>attr_id = 5, attr_user = 2, attr_name = ''Dinner''\<rparr>],
                      attr_seq := 6\<rparr>)
   \<and> fst (get_or_create 2 ''Thai'' example_tags) \<noteq> \<lparr>attr_id = 1, attr_user = 1, attr_name = ''Thai''\<rparr>"
proof -
  note A = find_or_create_scoped[where t = example_tags and u = 1 and n = "''Thai''"
      and a = "\<lparr>attr_id = 1, attr_user = 1, attr_name = ''Thai''\<rparr>", THEN conjunct1, THEN mp]
  note B = find_or_create_scoped[where t = example_tags and u = 2 and n = "''Dinner''",
      THEN conjunct2, THEN conjunct1, THEN mp]
  note C = find_or_create_scoped[where t = example_tags and u = 2 and n = "''Thai''"
      and b = "\<lparr>attr_id = 1, attr_user = 1, attr_name = ''Thai''\<rparr>",
      THEN conjunct2, THEN conjunct2, THEN conjunct1, THEN mp]
  have a: "\<lparr>attr_id = 1, attr_user = 1, attr_name = ''Thai''\<rparr> \<in> set (attr_rows example_tags)
      \<and> attr_user \<lparr>attr_id = 1, attr_user = 1, attr_name = ''Thai''\<rparr> = 1
      \<and> attr_name \<lparr>attr_id = 1, attr_user = 1, attr_name = ''Thai''\<rparr> = ''Thai''
      \<and> unique_names example_tags"
    using example_tags_ok(2) by (simp add: example_tags_def)
  have b: "(\<forall>b \<in> set (attr_rows example_tags). \<not> (attr_user b = 2 \<and> attr_name b = ''Dinner''))
      \<and> table_ok example_tags"
    using example_tags_ok(1) by (simp add: example_tags_def)
  have c: "\<lparr>attr_id = 1, attr_user = 1, attr_name = ''Thai''\<rparr> \<in> set (attr_rows example_tags)
      \<and> attr_user \<lparr>attr_id = 1, attr_user = 1, attr_name = ''Thai''\<rparr> \<noteq> 2"
    by (simp add: example_tags_def)
  have s: "attr_seq example_tags = 5" by (simp add: example_tags_def)
  show ?thesis using A[OF a] B[OF b] C[OF c] by (simp add: s)
qed

text \<open>
  C2. In a tag or ingredient table whose names are unique per owner, after reconciling a
  list of names for a recipe the ids associated with the recipe are exactly the ids of the
  rows of the current user that carry a listed name; every row there was is still a row
  (none is deleted); the empty list leaves the recipe with no association and the rows as
  they were; and the associations of other recipes are untouched. A partial update, a full
  update and a create that validation accepts reconcile the tags and the ingredients of the
  payload in this way.
\<close>

theorem association_replaced:
  assumes "unique_names t"
  shows
    "associated (reconcile u rid (Some ns) t) rid
       = attr_id ` {a \<in> set (attr_rows (reconcile u rid (Some ns) t)).
                     attr_user a = u \<and> attr_name a \<in> set ns}
     \<and> set (attr_rows t) \<subseteq> set (attr_rows (reconcile u rid (Some ns) t))
     \<and> associated (reconcile u rid (Some []) t) rid = {}
     \<and> attr_rows (reconcile u rid (Some []) t) = attr_rows t
     \<and> (rid' \<noteq> rid \<longrightarrow> associated (reconcile u rid (Some ns) t) rid' = associated t rid')
     \<and> (get_object recipe_id (RecipeViewSet_get_queryset u db) pk = Some inst
          \<and> V True (to_internal_value RecipeDetailSerializer d) \<longrightarrow>
        tag_table (fst (RecipeViewSet V (authenticated u (DetailRoute pk) PATCH d) db))
          = reconcile u pk (p_tags d) (tag_table db)
        \<and> ingredient_table (fst (RecipeViewSet V (authenticated u (DetailRoute pk) PATCH d) db))
          = reconcile u pk (p_ingredients d) (ingredient_table db))
     \<and> (get_object recipe_id (RecipeViewSet_get_queryset u db) pk = Some inst
          \<and> V False (to_internal_value RecipeDetailSerializer d) \<longrightarrow>
        tag_table (fst (RecipeViewSet V (authenticated u (DetailRoute pk) PUT d) db))
          = reconcile u pk (p_tags d) (tag_table db)
        \<and> ingredient_table (fst (RecipeViewSet V (authenticated u (DetailRoute pk) PUT d) db))
          = reconcile u pk (p_ingredients d) (ingredient_table db))
     \<and> (V False (to_internal_value RecipeDetailSerializer d) \<longrightarrow>
        tag_table (fst (RecipeViewSet V (authenticated u ListRoute POST d) db))
          = reconcile u (recipe_seq db) (p_tags d) (tag_table db)
        \<and> ingredient_table (fst (RecipeViewSet V (authenticated u ListRoute POST d) db))
          = reconcile u (recipe_seq db) (p_ingredients d) (ingredient_table db))"
proof -
  let ?r = "resolve_all u ns t"
  have r: "?r = (fst ?r, snd ?r)" by simp
  note A = associated_reconcile[OF r, of rid]
  have un: "unique_names (snd ?r)" using resolve_all_unique_names[OF r assms] .
  have eq: "attr_id ` set (fst ?r)
      = attr_id ` {a \<in> set (attr_rows (snd ?r)). attr_user a = u \<and> attr_name a \<in> set ns}"
  proof -
    have "set (fst ?r) = {a \<in> set (attr_rows (snd ?r)). attr_user a = u \<and> attr_name a \<in> set ns}"
    proof (intro set_eqI iffI)
      fix a assume "a \<in> set (fst ?r)"
      then show "a \<in> {a \<in> set (attr_rows (snd ?r)). attr_user a = u \<and> attr_name a \<in> set ns}"
        using resolved_in_table[OF r] by simp
    next
      fix a assume "a \<in> {a \<in> set (attr_rows (snd ?r)). attr_user a = u \<and> attr_name a \<in> set ns}"
      then have a: "a \<in> set (attr_rows (snd ?r))" "attr_user a = u" "attr_name a \<in> set ns"
        by simp_all
      from a(3) resolved_names[OF r] obtain b where b: "b \<in> set (fst ?r)"
        "attr_name b = attr_name a" by (metis imageE)
      have d: "distinct (map (\<lambda>a. (attr_user a, attr_name a)) (attr_rows (snd ?r)))"
        using un by (simp add: unique_names_def)
      have "b = a"
        by (rule same_key_same_row[OF d]) (use resolved_in_table[OF r b(1)] a b(2) in simp_all)
      then show "a \<in> set (fst ?r)" using b(1) by simp
    qed
    then show ?thesis by simp
  qed
  have rows: "set (attr_rows t) \<subseteq> set (attr_rows (snd ?r))"
  proof -
    from resolve_all_rows[OF r] obtain new where "attr_rows (snd ?r) = attr_rows t @ new"
      by blast
    then show ?thesis by simp
  qed
  have other: "associated (reconcile u rid (Some ns) t) rid' = associated t rid'"
    if "rid' \<noteq> rid"
    using that resolve_all_links[OF r]
    by (simp add: reconcile_Some[OF r] associated_set_association_other)
      (simp add: associated_def)
  show ?thesis
    using A eq rows other
    by (simp add: reconcile_empty viewset_write recipe_update_tables recipe_create_tables)
qed

text \<open>
  Recipe 1 of the example database has the tags Thai and Dinner; user 1 patches it with
  the one tag Thai.
\<close>

theorem association_replaced_witness:
  "associated (reconcile 1 1 (Some [''Thai'']) example_tags) 1 = {1}
   \<and> associated example_tags 1 = {1, 3}
   \<and> \<lparr>attr_id = 3, attr_user = 1, attr_name = ''Dinner''\<rparr>
       \<in> set (attr_rows (reconcile 1 1 (Some [''Thai'']) example_tags))
   \<and> associated (reconcile 1 1 (Some []) example_tags) 1 = {}
   \<and> associated (reconcile 1 1 (Some [''Thai'']) example_tags) 2 = {2}
   \<and> tag_table (fst (RecipeViewSet accept_all
         (authenticated 1 (DetailRoute 1) PATCH (no_input\<lparr>p_tags := Some [''Thai'']\<rparr>))
         example_db))
     = reconcile 1 1 (Some [''Thai'']) example_tags"
proof -
  note T = association_replaced[OF example_tags_ok(2), where u = 1 and rid = 1
      and ns = "[''Thai'']" and rid' = 2 and db = example_db and pk = 1 and inst = recipe_curry
      and V = accept_all and d = "no_input\<lparr>p_tags := Some [''Thai'']\<rparr>"]
  have rows: "attr_rows (reconcile 1 1 (Some [''Thai'']) example_tags) = attr_rows example_tags"
    by (simp add: reconcile_def get_or_create_def example_tags_def)
  have sel: "attr_id ` {a \<in> set (attr_rows example_tags). attr_user a = 1 \<and> attr_name a \<in> set [''Thai'']}
      = {1}"
  proof -
    have "{a \<in> set (attr_rows example_tags). attr_user a = 1 \<and> attr_name a \<in> set [''Thai'']}
        = set (filter (\<lambda>a. attr_user a = 1 \<and> attr_name a \<in> set [''Thai''])
            (attr_rows example_tags))"
      by (simp only: set_filter)
    then show ?thesis by (simp add: example_tags_def)
  qed
  have l2: "associated example_tags 2 = {2}"
    by (auto simp: associated_def example_tags_def)
  have g: "get_object recipe_id (RecipeViewSet_get_queryset 1 example_db) 1 = Some recipe_curry
      \<and> accept_all True (to_internal_value RecipeDetailSerializer (no_input\<lparr>p_tags := Some [''Thai'']\<rparr>))"
    using get_object_own_recipe[of recipe_curry example_db 1] example_recipe_ids
    by (simp add: example_db_def recipe_curry_def accept_all_def)
  have d: "\<lparr>attr_id = 3, attr_user = 1, attr_name = ''Dinner''\<rparr> \<in> set (attr_rows example_tags)"
    by (simp add: example_tags_def)
  have t: "tag_table example_db = example_tags" by (simp add: example_db_def)
  note T1 = T[THEN conjunct1, unfolded rows sel]
  note T2 = T[THEN conjunct2, THEN conjunct1, THEN subsetD, OF d]
  note T3 = T[THEN conjunct2, THEN conjunct2, THEN conjunct1]
  note T5 = T[THEN conjunct2, THEN conjunct2, THEN conjunct2, THEN conjunct2, THEN conjunct1,
      THEN mp, unfolded l2]
  note T6 = T[THEN conjunct2, THEN conjunct2, THEN conjunct2, THEN conjunct2, THEN conjunct2,
      THEN conjunct1, THEN mp, OF g, THEN conjunct1, unfolded t]
  have p: "p_tags (no_input\<lparr>p_tags := Some [''Thai'']\<rparr>) = Some [''Thai'']" by simp
  show ?thesis using T1 example_tag_links T2 T3 T5 T6 by (simp add: p)
qed

text \<open>
  C5. In a table with unique keys, reconciling a list of names leaves the recipe with one
  associated row per distinct name, all owned by the current user; the list with its
  duplicates removed gives the same owners and names and as many rows; and a list that
  names one tag twice gives exactly one associated row, of that name and of the current
  user.
\<close>

theorem duplicate_names_collapse:
  assumes "table_ok t"
  shows
    "card (associated (reconcile u rid (Some ns) t) rid) = card (set ns)
     \<and> associated_names (reconcile u rid (Some ns) t) rid = {u} \<times> set ns
     \<and> associated_names (reconcile u rid (Some (remdups ns)) t) rid
         = associated_names (reconcile u rid (Some ns) t) rid
     \<and> card (associated (reconcile u rid (Some (remdups ns)) t) rid)
         = card (associated (reconcile u rid (Some ns) t) rid)
     \<and> card (associated (reconcile u rid (Some [n, n]) t) rid) = 1
     \<and> associated_names (reconcile u rid (Some [n, n]) t) rid = {(u, n)}"
proof (intro conjI)
  show "card (associated (reconcile u rid (Some ns) t) rid) = card (set ns)"
    by (rule reconcile_card[OF assms])
  show "associated_names (reconcile u rid (Some ns) t) rid = {u} \<times> set ns"
    by (rule reconcile_names[OF assms])
  show "associated_names (reconcile u rid (Some (remdups ns)) t) rid
         = associated_names (reconcile u rid (Some ns) t) rid"
    by (simp add: reconcile_names[OF assms])
  show "card (associated (reconcile u rid (Some (remdups ns)) t) rid)
         = card (associated (reconcile u rid (Some ns) t) rid)"
    by (simp add: reconcile_card[OF assms])
  show "card (associated (reconcile u rid (Some [n, n]) t) rid) = 1"
    by (simp add: reconcile_card[OF assms])
  show "associated_names (reconcile u rid (Some [n, n]) t) rid = {(u, n)}"
    by (simp add: reconcile_names[OF assms])
qed

text \<open>User 1 lists Thai twice for a recipe, and Thai, Curry, Thai.\<close>

theorem duplicate_names_collapse_witness:
  "card (associated (reconcile 1 9 (Some [''Thai'', ''Thai'']) example_tags) 9) = 1
   \<and> associated_names (reconcile 1 9 (Some [''Thai'', ''Thai'']) example_tags) 9 = {(1, ''Thai'')}
   \<and> card (associated (reconcile 1 9 (Some [''Thai'', ''Curry'', ''Thai'']) example_tags) 9) = 2"
proof -
  note T = duplicate_names_collapse[OF example_tags_ok(1), where u = 1 and rid = 9
      and n = "''Thai''" and ns = "[''Thai'', ''Curry'', ''Thai'']"]
  have c: "card (set [''Thai'', ''Curry'', ''Thai'']) = 2" by (simp only: card_set) simp
  show ?thesis
    using T[THEN conjunct1, unfolded c]
      T[THEN conjunct2, THEN conjunct2, THEN conjunct2, THEN conjunct2, THEN conjunct1]
      T[THEN conjunct2, THEN conjunct2, THEN conjunct2, THEN conjunct2, THEN conjunct2]
    by (intro conjI)
qed

text \<open>
  C6. Reconciling an absent list is the identity. A partial update, a full update or a
  create whose payload has no \<^verbatim>\<open>tags\<close> key leaves the tag table, and with it every
  association of a recipe with a tag, as it was; the same holds for
  \<^verbatim>\<open>ingredients\<close>. The empty list is different: it leaves the recipe with no
  association.
\<close>

theorem omitted_key_keeps_association:
  "reconcile u rid None t = t
   \<and> (p_tags d = None \<longrightarrow>
        tag_table (fst (RecipeViewSet V (authenticated u (DetailRoute pk) PATCH d) db))
          = tag_table db
        \<and> tag_table (fst (RecipeViewSet V (authenticated u (DetailRoute pk) PUT d) db))
          = tag_table db
        \<and> tag_table (fst (RecipeViewSet V (authenticated u ListRoute POST d) db))
          = tag_table db)
   \<and> (p_ingredients d = None \<longrightarrow>
        ingredient_table (fst (RecipeViewSet V (authenticated u (DetailRoute pk) PATCH d) db))
          = ingredient_table db
        \<and> ingredient_table (fst (RecipeViewSet V (authenticated u (DetailRoute pk) PUT d) db))
          = ingredient_table db
        \<and> ingredient_table (fst (RecipeViewSet V (authenticated u ListRoute POST d) db))
          = ingredient_table db)
   \<and> associated (reconcile u rid (Some []) t) rid = {}"
  by (simp add: viewset_write recipe_update_tables recipe_create_tables reconcile_empty
      split: option.splits)

text \<open>User 1 patches the title of recipe 1 of the example database.\<close>

theorem omitted_key_keeps_association_witness:
  "tag_table (fst (RecipeViewSet accept_all
       (authenticated 1 (DetailRoute 1) PATCH (no_input\<lparr>p_title := Some ''New recipe title''\<rparr>))
       example_db)) = example_tags
   \<and> associated example_tags 1 = {1, 3}
   \<and> associated (reconcile 1 1 (Some []) example_tags) 1 = {}"
proof -
  note T = omitted_key_keeps_association[where u = 1 and rid = 1 and t = example_tags
      and d = "no_input\<lparr>p_title := Some ''New recipe title''\<rparr>" and V = accept_all
      and pk = 1 and db = example_db]
  have n: "p_tags (no_input\<lparr>p_title := Some ''New recipe title''\<rparr>) = None"
    by (simp add: no_input_def)
  have t: "tag_table example_db = example_tags" by (simp add: example_db_def)
  show ?thesis
    using T[THEN conjunct2, THEN conjunct1, THEN mp, OF n, THEN conjunct1, unfolded t]
      example_tag_links
      T[THEN conjunct2, THEN conjunct2, THEN conjunct2]
    by (intro conjI)
qed

end
